theory Spec2Isabelle
  imports Complex_Main "HOL-Library.AList"
begin

section \<open>Values shared by the services\<close>

text \<open>
  JavaScript strings are modelled as \<^typ>\<open>string\<close>; a column of the store, an answer
  of the provider or a property of a result that may be absent (\<open>undefined\<close>) or
  \<open>null\<close> is a \<^typ>\<open>string option\<close>. A string is truthy when it is not empty, so
  \<open>a || b\<close> on an optional string takes \<open>b\<close> for \<open>undefined\<close> and for \<open>''\<close>.

  A timestamp written by \<open>new Date().toISOString()\<close> is modelled by the epoch
  milliseconds it denotes (an \<^typ>\<open>int\<close>): such a string is never empty, hence
  truthy, and \<open>new Date(s)\<close> reads the same milliseconds back. Every clock reading is
  an argument named \<open>now\<close>, in epoch milliseconds: \<open>new Date()\<close> keeps the
  milliseconds, SQLite's \<open>datetime('now')\<close> keeps whole seconds.
\<close>

definition truthy :: "string option \<Rightarrow> bool" where
  "truthy v = (case v of None \<Rightarrow> False | Some s \<Rightarrow> s \<noteq> [])"

definition or_else :: "string option \<Rightarrow> string \<Rightarrow> string" where
  \<comment> \<open>\<open>v || d\<close>\<close>
  "or_else v d = (case v of None \<Rightarrow> d | Some s \<Rightarrow> if s = [] then d else s)"

definition datetime_now :: "int \<Rightarrow> int" where
  \<comment> \<open>\<open>datetime('now')\<close>: the text \<open>YYYY-MM-DD HH:MM:SS\<close>, ordered as the whole seconds
      it denotes\<close>
  "datetime_now now = now div 1000"

text \<open>
  The fields \<open>target\<close>, \<open>value\<close> and \<open>reasoning\<close> of a decision come out of
  \<open>JSON.parse\<close> or out of an object literal of the program: each is absent
  (\<open>undefined\<close>), \<open>null\<close> or a string. Only a non-empty string is truthy; inside a
  template literal \<open>${v}\<close> the first two are written \<open>undefined\<close> and \<open>null\<close>.
\<close>

datatype jsval = Undefined | Null | Str string

definition truthy_val :: "jsval \<Rightarrow> bool" where
  "truthy_val v = (case v of Str s \<Rightarrow> s \<noteq> [] | _ \<Rightarrow> False)"

definition tmpl :: "jsval \<Rightarrow> string" where
  \<comment> \<open>\<open>${v}\<close> inside a template literal\<close>
  "tmpl v = (case v of Undefined \<Rightarrow> ''undefined'' | Null \<Rightarrow> ''null'' | Str s \<Rightarrow> s)"

definition str_of :: "jsval \<Rightarrow> string" where
  \<comment> \<open>the string that a truthy value is\<close>
  "str_of v = (case v of Str s \<Rightarrow> s | _ \<Rightarrow> [])"

definition digit_char :: "nat \<Rightarrow> char" where
  "digit_char d = ''0123456789'' ! (d mod 10)"

fun show_nat :: "nat \<Rightarrow> string" where
  "show_nat n = (if n < 10 then [digit_char n] else show_nat (n div 10) @ [digit_char n])"

declare show_nat.simps [simp del]

subsection \<open>Numbers\<close>

text \<open>
  A JavaScript number is an IEEE 754 double. A finite double is modelled by the
  rational number it denotes. \<open>double_round x\<close> is the double nearest to the rational
  \<open>x\<close>, the one with the even significand when \<open>x\<close> lies halfway between two: a
  significand has 53 bits, so \<open>x\<close> is divided by the power of two that brings its
  magnitude into the interval from \<open>2^52\<close> to \<open>2^53\<close>, rounded to an integer, and
  multiplied back. The operators \<open>/\<close> and \<open>*\<close> of the language give the exact quotient
  and product rounded once. The exponent is not bounded: the program divides counts
  of array elements (below \<open>2^32\<close>) and differences of clock readings, and multiplies
  a quotient between 0 and 1 by 100, all of which lies far inside the range of
  normal doubles. Integers below \<open>2^53\<close> in magnitude, such as these counts and the
  differences of the clock readings of a run, are doubles, and their sums and
  differences are exact.

  \<open>x.toFixed(2)\<close> reads the exact value of the double \<open>x\<close>: it writes the integer \<open>n\<close>
  for which \<open>n / 100\<close> is nearest to \<open>x\<close>, the larger one when there are two, with two
  decimals (for a magnitude below \<open>10^21\<close>).
\<close>

fun floor_log2 :: "nat \<Rightarrow> nat" where
  "floor_log2 n = (if n < 2 then 0 else Suc (floor_log2 (n div 2)))"

declare floor_log2.simps [simp del]

definition exponent :: "rat \<Rightarrow> int" where
  \<comment> \<open>for \<open>0 < a\<close>, the \<open>e\<close> with \<open>2^e \<le> a < 2^(e+1)\<close>\<close>
  "exponent a =
     (if 1 \<le> a then int (floor_log2 (nat \<lfloor>a\<rfloor>))
      else - int (Suc (floor_log2 (nat \<lceil>1 / a\<rceil> - 1))))"

definition round_half_even :: "rat \<Rightarrow> int" where
  "round_half_even q =
     (let f = \<lfloor>q\<rfloor>; r = q - of_int f
      in if r < 1 / 2 then f else if 1 / 2 < r then f + 1 else if even f then f else f + 1)"

definition double_round :: "rat \<Rightarrow> rat" where
  "double_round x =
     (if x = 0 then 0
      else (let u = 2 powi (exponent \<bar>x\<bar> - 52)
            in sgn x * of_int (round_half_even (\<bar>x\<bar> / u)) * u))"

definition double_div :: "rat \<Rightarrow> rat \<Rightarrow> rat" where
  \<comment> \<open>\<open>x / y\<close> for a divisor that is not zero\<close>
  "double_div x y = double_round (x / y)"

definition double_mul :: "rat \<Rightarrow> rat \<Rightarrow> rat" where
  \<comment> \<open>\<open>x * y\<close>\<close>
  "double_mul x y = double_round (x * y)"

definition toFixed2 :: "rat \<Rightarrow> string" where
  \<comment> \<open>\<open>x.toFixed(2)\<close> for the double that denotes \<open>x\<close>\<close>
  "toFixed2 x =
     (let n = nat \<lfloor>\<bar>x\<bar> * 100 + 1 / 2\<rfloor>
      in (if x < 0 then ''-'' else '''') @ show_nat (n div 100) @ ''.'' @
         [digit_char (n div 10), digit_char n])"

subsection \<open>Decisions, results and log entries\<close>

record action =
  act_action :: string
  act_target :: jsval
  act_value :: jsval
  act_reasoning :: jsval

record result =
  res_success :: bool
  res_message :: string
  res_error :: "string option"

record page_context =
  ctx_url :: string
  ctx_title :: "string option"

record action_log =
  log_timestamp :: int
  log_action :: action
  log_result :: result
  log_context :: page_context

subsection \<open>The report body built by \<open>generateReport\<close>\<close>

record nav_step =
  nav_step :: nat
  nav_url :: string
  nav_title :: string
  nav_timestamp :: int

record issue_details =
  det_action :: string
  det_target :: jsval
  det_error :: "string option"

record issue =
  iss_severity :: string
  iss_type :: string
  iss_message :: string
  iss_timestamp :: int
  iss_page :: string
  iss_details :: issue_details

record timeline_page =
  pg_url :: string
  pg_title :: "string option"

record timeline_step =
  tl_step :: nat
  tl_timestamp :: int
  tl_action :: string
  tl_target :: jsval
  tl_value :: jsval
  tl_reasoning :: jsval
  tl_success :: bool
  tl_message :: string
  tl_page :: timeline_page

record performance_metrics =
  totalDuration :: int
  averageActionTime :: rat
  successRate :: rat

record report_summary =
  pagesVisited :: nat
  actionsPerformed :: nat
  issuesFound :: nat
  duration :: int
  successRateText :: string

record report =
  rep_testId :: string
  rep_browserbaseSessionId :: string
  rep_recordingUrl :: "string option"
  rep_timestamp :: int
  rep_summary :: report_summary
  rep_navigationPath :: "nav_step list"
  rep_pagesVisited :: "string list"
  rep_actionsTimeline :: "timeline_step list"
  rep_issues :: "issue list"
  rep_performanceMetrics :: performance_metrics

section \<open>Persistence store (\<open>backend/database/db.js\<close>)\<close>

text \<open>
  The \<open>status\<close> column is TEXT; the values the repository writes are \<open>'pending'\<close>
  (by \<open>createTest\<close>), \<open>'queued'\<close>, \<open>'running'\<close>, \<open>'completed'\<close>, \<open>'failed'\<close> and
  \<open>'stopped'\<close>. The columns \<open>created_at\<close>, \<open>started_at\<close> and \<open>completed_at\<close> are
  written as \<open>datetime('now')\<close> by the \<open>INSERT\<close> and \<open>UPDATE\<close> statements, in whole
  seconds.
\<close>

datatype status = Pending | Queued | Running | Completed | Failed | Stopped

record test_row =
  url :: string
  status :: status
  created_at :: int
  started_at :: "int option"
  completed_at :: "int option"
  browserbase_session_id :: "string option"
  error :: "string option"

record report_row =
  rr_test_id :: string
  rr_data :: report
  rr_browserbase_recording_url :: "string option"
  rr_issues_count :: nat
  rr_pages_visited :: nat
  rr_actions_count :: nat
  rr_created_at :: int

record db =
  tests :: "string \<rightharpoonup> test_row"
  reports :: "report_row list"

definition createTest :: "db \<Rightarrow> string \<Rightarrow> string \<Rightarrow> string option \<Rightarrow> int \<Rightarrow> string + db" where
  \<comment> \<open>\<open>INSERT INTO tests\<close>; \<open>id\<close> is the primary key, so a second insert of an id throws\<close>
  "createTest d testId u browserbaseSessionId now =
     (case tests d testId of
        Some _ \<Rightarrow> Inl ''UNIQUE constraint failed: tests.id''
      | None \<Rightarrow>
          Inr (d\<lparr>tests := (tests d)(testId \<mapsto>
                 \<lparr>url = u, status = Pending, created_at = datetime_now now, started_at = None,
                  completed_at = None, browserbase_session_id = browserbaseSessionId,
                  error = None\<rparr>)\<rparr>))"

definition updateTestStatus :: "db \<Rightarrow> string \<Rightarrow> status \<Rightarrow> string option \<Rightarrow> int \<Rightarrow> db" where
  \<comment> \<open>three \<open>UPDATE\<close> statements chosen by the new status; an unknown id updates no row\<close>
  "updateTestStatus d testId st err now =
     (case tests d testId of
        None \<Rightarrow> d
      | Some r \<Rightarrow>
          if st = Running then
            d\<lparr>tests := (tests d)(testId \<mapsto> r\<lparr>status := st, started_at := Some (datetime_now now)\<rparr>)\<rparr>
          else if st = Completed \<or> st = Failed then
            d\<lparr>tests := (tests d)(testId \<mapsto>
                 r\<lparr>status := st, completed_at := Some (datetime_now now), error := err\<rparr>)\<rparr>
          else
            d\<lparr>tests := (tests d)(testId \<mapsto> r\<lparr>status := st\<rparr>)\<rparr>)"

definition getTest :: "db \<Rightarrow> string \<Rightarrow> test_row option" where
  "getTest d testId = tests d testId"

definition createReport :: "db \<Rightarrow> string \<Rightarrow> report \<Rightarrow> string option \<Rightarrow> int \<Rightarrow> string + db" where
  \<comment> \<open>\<open>INSERT INTO reports\<close>; \<open>test_id\<close> references \<open>tests(id)\<close> with foreign keys on\<close>
  "createReport d testId reportData browserbaseRecordingUrl now =
     (case tests d testId of
        None \<Rightarrow> Inl ''FOREIGN KEY constraint failed''
      | Some _ \<Rightarrow>
          Inr (d\<lparr>reports := reports d @
                 [\<lparr>rr_test_id = testId, rr_data = reportData,
                   rr_browserbase_recording_url = browserbaseRecordingUrl,
                   rr_issues_count = issuesFound (rep_summary reportData),
                   rr_pages_visited = pagesVisited (rep_summary reportData),
                   rr_actions_count = actionsPerformed (rep_summary reportData),
                   rr_created_at = datetime_now now\<rparr>]\<rparr>))"

definition getReport :: "db \<Rightarrow> string \<Rightarrow> report_row option" where
  \<comment> \<open>\<open>ORDER BY created_at DESC LIMIT 1\<close>: the row of the latest second, and among
      the rows of that second the one inserted first\<close>
  "getReport d testId =
     (case filter (\<lambda>r. rr_test_id r = testId) (reports d) of
        [] \<Rightarrow> None
      | r # rs \<Rightarrow> Some (fold (\<lambda>x best. if rr_created_at best < rr_created_at x then x else best) rs r))"

section \<open>Session provider adapter (\<open>backend/services/browserbase-service.js\<close>)\<close>

text \<open>
  The provider's answers are inputs of the model. \<open>browserbase.sessions.create\<close>
  either throws (\<open>Inl\<close> of the error's message) or yields the new session.
\<close>

record provider_session =
  ps_id :: string
  ps_liveUrl :: "string option"
  ps_debugUrl :: "string option"

record session_handle =
  sessionId :: string
  liveViewUrl :: string
  debugUrl :: "string option"

definition createSession :: "string + provider_session \<Rightarrow> string + session_handle" where
  "createSession created =
     (case created of
        Inl msg \<Rightarrow> Inl (''Failed to create Browserbase session: '' @ msg)
      | Inr session \<Rightarrow>
          Inr \<lparr>sessionId = ps_id session,
               liveViewUrl = or_else (ps_liveUrl session) (''https://browserbase.com/sessions/'' @ ps_id session),
               debugUrl = (if truthy (ps_debugUrl session) then ps_debugUrl session else None)\<rparr>)"

text \<open>
  One answer of \<open>browserbase.sessions.retrieve\<close>: it throws, or yields the session's
  \<open>status\<close> and \<open>endedAt\<close>.
\<close>

datatype retrieved = RetrieveThrows string | Retrieved string "string option"

definition session_completed :: "retrieved \<Rightarrow> bool" where
  \<comment> \<open>\<open>session.status === 'COMPLETED' || session.endedAt\<close>\<close>
  "session_completed r =
     (case r of RetrieveThrows _ \<Rightarrow> False
      | Retrieved st endedAt \<Rightarrow> st = ''COMPLETED'' \<or> truthy endedAt)"

function getRecordingUrl_from :: "(nat \<Rightarrow> retrieved) \<Rightarrow> string \<Rightarrow> nat \<Rightarrow> nat \<Rightarrow> string option" where
  "getRecordingUrl_from retrieve sid maxRetries attempt =
     (if attempt \<le> maxRetries then
        (if session_completed (retrieve attempt)
         then Some (''https://browserbase.com/sessions/'' @ sid)
         else getRecordingUrl_from retrieve sid maxRetries (attempt + 1))
      else Some (''https://browserbase.com/sessions/'' @ sid))"
  by pat_completeness auto
termination
  by (relation "measure (\<lambda>(retrieve, sid, maxRetries, attempt). maxRetries + 1 - attempt)") auto

declare getRecordingUrl_from.simps [simp del]

definition getRecordingUrl :: "(nat \<Rightarrow> retrieved) \<Rightarrow> string \<Rightarrow> nat \<Rightarrow> string option" where
  \<comment> \<open>the \<open>for\<close> loop over \<open>attempt = 1 .. maxRetries\<close> (default 5), then the final
      \<open>return recordingUrl\<close>; the declared result is \<open>string|null\<close>, \<open>None\<close> being \<open>null\<close>\<close>
  "getRecordingUrl retrieve sid maxRetries = getRecordingUrl_from retrieve sid maxRetries 1"

section \<open>Report builder (\<open>services/report-service.js\<close>, found as \<open>src/unnamed/part_002\<close>)\<close>

definition first_seen :: "'a list \<Rightarrow> 'a list" where
  \<comment> \<open>\<open>[...new Set(xs)]\<close>: a Set keeps the first occurrence of each element, in order\<close>
  "first_seen xs = foldl (\<lambda>acc x. if x \<in> set acc then acc else acc @ [x]) [] xs"

definition navigationPath_of :: "action_log list \<Rightarrow> nav_step list" where
  "navigationPath_of actionLogs =
     map (\<lambda>(index, l).
            \<lparr>nav_step = index + 1, nav_url = ctx_url (log_context l),
             nav_title = or_else (ctx_title (log_context l)) ''Unknown'',
             nav_timestamp = log_timestamp l\<rparr>)
         (enumerate 0 (filter (\<lambda>l. ctx_url (log_context l) \<noteq> []) actionLogs))"

definition issue_of :: "action_log \<Rightarrow> issue" where
  "issue_of l =
     \<lparr>iss_severity = ''error'', iss_type = ''action_failed'',
      iss_message = ''Failed to '' @ act_action (log_action l) @ '': '' @
                    or_else (res_error (log_result l)) (res_message (log_result l)),
      iss_timestamp = log_timestamp l,
      iss_page = ctx_url (log_context l),
      iss_details = \<lparr>det_action = act_action (log_action l),
                     det_target = act_target (log_action l),
                     det_error = res_error (log_result l)\<rparr>\<rparr>"

definition issues_of :: "action_log list \<Rightarrow> issue list" where
  "issues_of actionLogs = map issue_of (filter (\<lambda>l. \<not> res_success (log_result l)) actionLogs)"

definition actionsTimeline_of :: "action_log list \<Rightarrow> timeline_step list" where
  "actionsTimeline_of actionLogs =
     map (\<lambda>(index, l).
            \<lparr>tl_step = index + 1, tl_timestamp = log_timestamp l,
             tl_action = act_action (log_action l), tl_target = act_target (log_action l),
             tl_value = act_value (log_action l), tl_reasoning = act_reasoning (log_action l),
             tl_success = res_success (log_result l), tl_message = res_message (log_result l),
             tl_page = \<lparr>pg_url = ctx_url (log_context l), pg_title = ctx_title (log_context l)\<rparr>\<rparr>)
         (enumerate 0 actionLogs)"

definition duration_of :: "action_log list \<Rightarrow> int" where
  \<comment> \<open>\<open>startTime && endTime ? new Date(endTime) - new Date(startTime) : 0\<close>; both
      timestamps are \<open>undefined\<close> exactly when the list is empty\<close>
  "duration_of actionLogs =
     (case actionLogs of
        [] \<Rightarrow> 0
      | l # ls \<Rightarrow> log_timestamp (last (l # ls)) - log_timestamp l)"

definition performanceMetrics_of :: "action_log list \<Rightarrow> performance_metrics" where
  "performanceMetrics_of actionLogs =
     \<lparr>totalDuration = duration_of actionLogs,
      averageActionTime =
        (if length actionLogs > 0
         then double_div (of_int (duration_of actionLogs)) (of_nat (length actionLogs))
         else 0),
      successRate =
        (if length actionLogs > 0
         then double_mul
                (double_div (of_nat (length (filter (\<lambda>l. res_success (log_result l)) actionLogs)))
                            (of_nat (length actionLogs)))
                100
         else 0)\<rparr>"

definition generateReport ::
  "db \<Rightarrow> (nat \<Rightarrow> retrieved) \<Rightarrow> int \<Rightarrow> string \<Rightarrow> action_log list \<Rightarrow> string \<Rightarrow> string + report \<times> db" where
  \<comment> \<open>\<open>Inl\<close> is the error thrown by the \<open>catch\<close>; \<open>Inr\<close> the returned report and the
      store after \<open>createReport\<close>\<close>
  "generateReport d retrieve now testId actionLogs browserbaseSessionId =
     (let recordingUrl = getRecordingUrl retrieve browserbaseSessionId 5;
          pagesVisitedList = first_seen (filter (\<lambda>u. u \<noteq> []) (map (\<lambda>l. ctx_url (log_context l)) actionLogs));
          issues = issues_of actionLogs;
          perf = performanceMetrics_of actionLogs;
          rep = \<lparr>rep_testId = testId,
                 rep_browserbaseSessionId = browserbaseSessionId,
                 rep_recordingUrl = recordingUrl,
                 rep_timestamp = now,
                 rep_summary = \<lparr>pagesVisited = length pagesVisitedList,
                                 actionsPerformed = length actionLogs,
                                 issuesFound = length issues,
                                 duration = duration_of actionLogs,
                                 successRateText = toFixed2 (successRate perf) @ ''%''\<rparr>,
                 rep_navigationPath = navigationPath_of actionLogs,
                 rep_pagesVisited = pagesVisitedList,
                 rep_actionsTimeline = actionsTimeline_of actionLogs,
                 rep_issues = issues,
                 rep_performanceMetrics = perf\<rparr>
      in case createReport d testId rep recordingUrl now of
           Inl msg \<Rightarrow> Inl (''Report generation failed: '' @ msg)
         | Inr d' \<Rightarrow> Inr (rep, d'))"

definition getTestReport :: "db \<Rightarrow> string \<Rightarrow> report option" where
  "getTestReport d testId = map_option rr_data (getReport d testId)"

section \<open>HTTP routes and the admission queue (\<open>backend/routes/test-routes.js\<close>)\<close>

text \<open>
  Each request handler, and each stretch of the background job that writes a
  status, is a function from the module's state to its next state; what the outside
  world answers (the provider, the clock, the identifier drawn by \<open>randomUUID\<close>) is
  an argument. A handler runs to its end before the next event is taken, and so does
  \<open>processQueue\<close>, although it waits for the provider and for its two-second delay.
  The screenshot rows and the narrative summary of a run are left out: no status
  depends on them (a failure of the summary is swallowed by its own \<open>try\<close>). The
  fields that the job sets on its in-memory entry just before it deletes the entry
  (\<open>completedAt\<close>, \<open>error\<close>, \<open>report\<close>, \<open>recordingUrl\<close>) are left out with it.
\<close>

record progress_event =
  pe_timestamp :: int
  pe_status :: string
  pe_message :: string

record active_session =
  as_status :: status
  as_progress :: "progress_event list"
  as_queuePosition :: "nat option"
  as_queuedAt :: "int option"
  as_startedAt :: "int option"

record queued_test =
  qt_testId :: string
  qt_url :: string
  qt_queuedAt :: int

text \<open>
  \<open>activeSessions\<close> is a \<open>Map\<close>: an association list with one pair per key, whose
  \<open>size\<close> is its length. \<open>jobs\<close> is not a variable of the module: it lists the
  invocations of \<open>runTestInBackground\<close> that have started and not yet reached their
  end, with the session each was given.
\<close>

record state =
  database :: db
  activeSessions :: "(string \<times> active_session) list"
  testQueue :: "queued_test list"
  isProcessingQueue :: bool
  jobs :: "(string \<times> string) list"

definition init_state :: state where
  "init_state = \<lparr>database = \<lparr>tests = Map.empty, reports = []\<rparr>, activeSessions = [],
                  testQueue = [], isProcessingQueue = False, jobs = []\<rparr>"

definition status_text :: "status \<Rightarrow> string" where
  "status_text st =
     (case st of Pending \<Rightarrow> ''pending'' | Queued \<Rightarrow> ''queued'' | Running \<Rightarrow> ''running''
      | Completed \<Rightarrow> ''completed'' | Failed \<Rightarrow> ''failed'' | Stopped \<Rightarrow> ''stopped'')"

datatype body =
    ErrorBody string string
  | ErrorStatusBody string string status
  | QueuedBody string nat
  | StartedBody string string string
  | ActiveStatusBody string status "progress_event list" "int option"
  | StoredStatusBody string test_row "string option"
  | RecordingBody string string string
  | ReportBody report
  | StoppedBody string

type_synonym response = "nat \<times> body"

definition runTestInBackground_begin :: "state \<Rightarrow> string \<Rightarrow> string \<Rightarrow> int \<Rightarrow> state" where
  \<comment> \<open>the job up to its first \<open>await\<close>: it runs inside the caller\<close>
  "runTestInBackground_begin s testId browserbaseSessionId now =
     s\<lparr>database := updateTestStatus (database s) testId Running None now,
       activeSessions := AList.update testId
          \<lparr>as_status = Running, as_progress = [], as_queuePosition = None,
           as_queuedAt = None, as_startedAt = Some now\<rparr> (activeSessions s),
       jobs := jobs s @ [(testId, browserbaseSessionId)]\<rparr>"

function processQueue_loop :: "(nat \<Rightarrow> string + provider_session) \<Rightarrow> int \<Rightarrow> nat \<Rightarrow> state \<Rightarrow> state" where
  "processQueue_loop created now i s =
     (case testQueue s of
        [] \<Rightarrow> s
      | queuedTest # rest \<Rightarrow>
          if length (activeSessions s) \<ge> 1 then s
          else
            (case createSession (created i) of
               Inl msg \<Rightarrow>
                 processQueue_loop created now (i + 1)
                   (s\<lparr>testQueue := rest,
                      database := updateTestStatus (database s) (qt_testId queuedTest) Failed (Some msg) now\<rparr>)
             | Inr session \<Rightarrow>
                 (case createTest (database s) (qt_testId queuedTest) (qt_url queuedTest)
                         (Some (sessionId session)) now of
                    Inl msg \<Rightarrow>
                      processQueue_loop created now (i + 1)
                        (s\<lparr>testQueue := rest,
                           database := updateTestStatus (database s) (qt_testId queuedTest) Failed (Some msg) now\<rparr>)
                  | Inr d \<Rightarrow>
                      processQueue_loop created now (i + 1)
                        (runTestInBackground_begin (s\<lparr>testQueue := rest, database := d\<rparr>)
                           (qt_testId queuedTest) (sessionId session) now))))"
  by pat_completeness auto
termination
  by (relation "measure (\<lambda>(created, now, i, s). length (testQueue s))")
     (auto simp: runTestInBackground_begin_def)

declare processQueue_loop.simps [simp del]

definition processQueue :: "(nat \<Rightarrow> string + provider_session) \<Rightarrow> int \<Rightarrow> state \<Rightarrow> state" where
  \<comment> \<open>\<open>created i\<close> is the provider's answer to the \<open>createSession\<close> of the loop's
      \<open>i\<close>-th round\<close>
  "processQueue created now s =
     (if isProcessingQueue s \<or> testQueue s = [] then s
      else (processQueue_loop created now 0 (s\<lparr>isProcessingQueue := True\<rparr>))\<lparr>isProcessingQueue := False\<rparr>)"

definition start_admitted ::
  "state \<Rightarrow> string \<Rightarrow> string \<Rightarrow> int \<Rightarrow> string + provider_session \<Rightarrow> response \<times> state" where
  \<comment> \<open>\<open>POST /start\<close> from \<open>await createSession()\<close> on, for a request that has passed the
      capacity check: the state is the one found when the provider has answered\<close>
  "start_admitted s testId u now created =
     (case createSession created of
        Inl msg \<Rightarrow> ((500, ErrorBody ''Failed to start test'' msg), s)
      | Inr session \<Rightarrow>
          (case createTest (database s) testId u (Some (sessionId session)) now of
             Inl msg \<Rightarrow> ((500, ErrorBody ''Failed to start test'' msg), s)
           | Inr d \<Rightarrow>
               ((200, StartedBody testId (sessionId session) (liveViewUrl session)),
                runTestInBackground_begin (s\<lparr>database := d\<rparr>) testId (sessionId session) now)))"

definition start ::
  "state \<Rightarrow> string \<Rightarrow> string option \<Rightarrow> bool \<Rightarrow> int \<Rightarrow> string + provider_session \<Rightarrow> response \<times> state" where
  \<comment> \<open>\<open>POST /start\<close>: \<open>testId\<close> is the identifier drawn by \<open>randomUUID\<close>, \<open>u\<close> the
      request's \<open>url\<close>, \<open>url_ok\<close> whether \<open>new URL(url)\<close> accepts it, \<open>created\<close> the
      provider's answer to \<open>createSession\<close>\<close>
  "start s testId u url_ok now created =
     (if \<not> truthy u then
        ((400, ErrorBody ''URL is required'' ''Please provide a website URL to test''), s)
      else if \<not> url_ok then
        ((400, ErrorBody ''Invalid URL''
                 ''Please provide a valid URL including protocol (e.g., https://example.com)''), s)
      else if length (activeSessions s) \<ge> 1 then
        (case createTest (database s) testId (the u) None now of
           Inl msg \<Rightarrow> ((500, ErrorBody ''Failed to start test'' msg), s)
         | Inr d \<Rightarrow>
             (let q = testQueue s @ [\<lparr>qt_testId = testId, qt_url = the u, qt_queuedAt = now\<rparr>]
              in ((200, QueuedBody testId (length q)),
                  s\<lparr>database := updateTestStatus d testId Queued None now,
                    testQueue := q,
                    activeSessions := AList.update testId
                       \<lparr>as_status = Queued, as_progress = [], as_queuePosition = Some (length q),
                        as_queuedAt = Some now, as_startedAt = None\<rparr> (activeSessions s)\<rparr>)))
      else start_admitted s testId (the u) now created)"

definition runTestInBackground_loaded :: "state \<Rightarrow> string \<Rightarrow> string \<Rightarrow> int \<Rightarrow> state" where
  \<comment> \<open>after the page has loaded: \<open>session.progress.push(...)\<close> when the run is still in
      \<open>activeSessions\<close>\<close>
  "runTestInBackground_loaded s testId u now =
     (case map_of (activeSessions s) testId of
        None \<Rightarrow> s
      | Some session \<Rightarrow>
          s\<lparr>activeSessions := AList.update testId
               (session\<lparr>as_progress := as_progress session @
                  [\<lparr>pe_timestamp = now, pe_status = ''loaded'',
                    pe_message = ''Website loaded: '' @ u\<rparr>]\<rparr>) (activeSessions s)\<rparr>)"

definition runTestInBackground_failed ::
  "state \<Rightarrow> string \<Rightarrow> string \<Rightarrow> int \<Rightarrow> (nat \<Rightarrow> string + provider_session) \<Rightarrow> state" where
  \<comment> \<open>the \<open>catch\<close> block of the job, \<open>msg\<close> being \<open>error.message\<close>\<close>
  "runTestInBackground_failed s testId msg now created =
     processQueue created now
       (s\<lparr>database := updateTestStatus (database s) testId Failed (Some msg) now,
          activeSessions := AList.delete testId (activeSessions s),
          jobs := filter (\<lambda>j. fst j \<noteq> testId) (jobs s)\<rparr>)"

definition runTestInBackground_finish ::
  "state \<Rightarrow> string \<Rightarrow> string \<Rightarrow> action_log list \<Rightarrow> (nat \<Rightarrow> retrieved) \<Rightarrow> int \<Rightarrow>
   (nat \<Rightarrow> string + provider_session) \<Rightarrow> state" where
  \<comment> \<open>the job from \<open>generateReport\<close> to its end, \<open>actionLogs\<close> being the entries it has
      collected; an error thrown by \<open>generateReport\<close> lands in the \<open>catch\<close> block\<close>
  "runTestInBackground_finish s testId browserbaseSessionId actionLogs retrieve now created =
     (case generateReport (database s) retrieve now testId actionLogs browserbaseSessionId of
        Inl msg \<Rightarrow> runTestInBackground_failed s testId msg now created
      | Inr (rep, d) \<Rightarrow>
          processQueue created now
            (s\<lparr>database := updateTestStatus d testId Completed None now,
               activeSessions := AList.delete testId (activeSessions s),
               jobs := filter (\<lambda>j. fst j \<noteq> testId) (jobs s)\<rparr>))"

definition get_status :: "state \<Rightarrow> string \<Rightarrow> response" where
  \<comment> \<open>\<open>GET /:testId/status\<close>: the in-memory entry first (with its status, progress
      and start time), the store otherwise\<close>
  "get_status s testId =
     (case map_of (activeSessions s) testId of
        Some activeSession \<Rightarrow>
          (200, ActiveStatusBody testId (as_status activeSession) (as_progress activeSession)
                  (as_startedAt activeSession))
      | None \<Rightarrow>
          (case getTest (database s) testId of
             None \<Rightarrow> (404, ErrorBody ''Test not found'' (''No test found with ID: '' @ testId))
           | Some test \<Rightarrow>
               (200, StoredStatusBody testId test
                  (if status test = Completed
                   then (case getReport (database s) testId of
                           None \<Rightarrow> None
                         | Some r \<Rightarrow> rep_recordingUrl (rr_data r))
                   else None))))"

definition get_recording :: "state \<Rightarrow> (nat \<Rightarrow> retrieved) \<Rightarrow> string \<Rightarrow> response" where
  \<comment> \<open>\<open>GET /:testId/recording\<close>\<close>
  "get_recording s retrieve testId =
     (case getTest (database s) testId of
        None \<Rightarrow> (404, ErrorBody ''Test not found'' (''No test found with ID: '' @ testId))
      | Some test \<Rightarrow>
          if \<not> truthy (browserbase_session_id test) then
            (400, ErrorBody ''No session ID'' ''Test does not have a Browserbase session ID'')
          else
            (let recordingUrl = getRecordingUrl retrieve (the (browserbase_session_id test)) 5
             in if \<not> truthy recordingUrl then
                  (404, ErrorBody ''Recording not available''
                     ''Session recording is not yet available. Please try again in a few moments.'')
                else
                  (200, RecordingBody testId (the (browserbase_session_id test)) (the recordingUrl))))"

definition get_report :: "state \<Rightarrow> string \<Rightarrow> response" where
  \<comment> \<open>\<open>GET /:testId/report\<close>\<close>
  "get_report s testId =
     (case getTest (database s) testId of
        None \<Rightarrow> (404, ErrorBody ''Test not found'' (''No test found with ID: '' @ testId))
      | Some test \<Rightarrow>
          if status test \<noteq> Completed then
            (400, ErrorStatusBody ''Test not completed''
                    (''Test is currently '' @ status_text (status test) @
                     ''. Reports are only available for completed tests.'') (status test))
          else
            (case getTestReport (database s) testId of
               None \<Rightarrow> (404, ErrorBody ''Report not found'' ''Test completed but report was not generated'')
             | Some rep \<Rightarrow> (200, ReportBody rep)))"

definition stop :: "state \<Rightarrow> string \<Rightarrow> int \<Rightarrow> response \<times> state" where
  \<comment> \<open>\<open>POST /:testId/stop\<close>; ending the remote session changes nothing of the state\<close>
  "stop s testId now =
     (case getTest (database s) testId of
        None \<Rightarrow> ((404, ErrorBody ''Test not found'' (''No test found with ID: '' @ testId)), s)
      | Some test \<Rightarrow>
          if status test \<noteq> Running then
            ((400, ErrorStatusBody ''Test not running''
                     (''Test is currently '' @ status_text (status test) @ '' and cannot be stopped.'')
                     (status test)), s)
          else
            ((200, StoppedBody testId),
             s\<lparr>database := updateTestStatus (database s) testId Stopped
                               (Some ''Manually stopped by user'') now,
               activeSessions := AList.delete testId (activeSessions s)\<rparr>))"

text \<open>
  The events that change the state: the two \<open>POST\<close> requests and the steps of a
  background job. A step of a job is taken only while that job is in \<open>jobs\<close>.
\<close>

datatype event =
    Start string "string option" bool int "string + provider_session"
  | Stop string int
  | JobLoaded string int
  | JobFinishes string "action_log list" "nat \<Rightarrow> retrieved" int "nat \<Rightarrow> string + provider_session"
  | JobFails string string int "nat \<Rightarrow> string + provider_session"

definition step :: "state \<Rightarrow> event \<Rightarrow> state" where
  "step s e =
     (case e of
        Start testId u url_ok now created \<Rightarrow> snd (start s testId u url_ok now created)
      | Stop testId now \<Rightarrow> snd (stop s testId now)
      | JobLoaded testId now \<Rightarrow>
          (case map_of (jobs s) testId of
             None \<Rightarrow> s
           | Some _ \<Rightarrow>
               (case getTest (database s) testId of
                  None \<Rightarrow> s
                | Some test \<Rightarrow> runTestInBackground_loaded s testId (url test) now))
      | JobFinishes testId actionLogs retrieve now created \<Rightarrow>
          (case map_of (jobs s) testId of
             None \<Rightarrow> s
           | Some sid \<Rightarrow> runTestInBackground_finish s testId sid actionLogs retrieve now created)
      | JobFails testId msg now created \<Rightarrow>
          (case map_of (jobs s) testId of
             None \<Rightarrow> s
           | Some _ \<Rightarrow> runTestInBackground_failed s testId msg now created))"

definition run :: "state \<Rightarrow> event list \<Rightarrow> state" where
  "run s es = foldl step s es"

definition status_of :: "state \<Rightarrow> string \<Rightarrow> status option" where
  "status_of s testId = map_option status (getTest (database s) testId)"

section \<open>Decision client and action executor (\<open>services/agent-service.js\<close>, found in \<open>src/backend/utils/cleanup.js\<close>)\<close>

subsection \<open>\<open>JSON.parse\<close>\<close>

text \<open>
  \<open>JSON.parse\<close> is a built-in of the language; it is modelled after the JSON grammar
  (ECMA-404): white space is space, tab, line feed and carriage return; a string may
  not hold a raw character below U+0020 and knows the escapes \<open>\"\<close>, \<open>\\\<close>, \<open>\/\<close>,
  \<open>\b\<close>, \<open>\f\<close>, \<open>\n\<close>, \<open>\r\<close>, \<open>\t\<close> and \<open>\uXXXX\<close>; a number is an optional
  minus, \<open>0\<close> or digits without a leading zero, an optional fraction and an optional
  exponent; nothing but white space may follow the value. \<open>None\<close> stands for the
  \<open>SyntaxError\<close> it throws. A decoded string is the list of its code units; a number
  is kept as written; an object keeps its members in the order of the text (on a
  repeated key JavaScript reads the last one).

  The text is first cut into tokens by an automaton that reads one character at a
  time, then the tokens drive a stack of the arrays and objects that are still open.
\<close>

datatype json =
    JNull
  | JBool bool
  | JNum string
  | JStr "nat list"
  | JArr "json list"
  | JObj "(nat list \<times> json) list"

datatype token =
    TLBrace | TRBrace | TLBrack | TRBrack | TColon | TComma
  | TString "nat list" | TNumber string | TTrue | TFalse | TNull

datatype num_state = NMinus | NZero | NInt | NDot | NFrac | NExp | NExpSign | NExpDigits

datatype lex_mode =
    LStart
  | LStr "nat list"
  | LEsc "nat list"
  | LUni "nat list" nat nat
  | LLit string token
  | LNum num_state string

definition is_ws :: "char \<Rightarrow> bool" where
  "is_ws c = (c = CHR '' '' \<or> c = CHR 0x09 \<or> c = CHR 0x0A \<or> c = CHR 0x0D)"

definition is_digit :: "char \<Rightarrow> bool" where
  "is_digit c = (48 \<le> (of_char c :: nat) \<and> (of_char c :: nat) \<le> 57)"

definition hex_digit :: "char \<Rightarrow> nat option" where
  "hex_digit c =
     (let n = (of_char c :: nat)
      in if 48 \<le> n \<and> n \<le> 57 then Some (n - 48)
         else if 65 \<le> n \<and> n \<le> 70 then Some (n - 55)
         else if 97 \<le> n \<and> n \<le> 102 then Some (n - 87)
         else None)"

definition escape_of :: "char \<Rightarrow> nat option" where
  "escape_of c =
     (if c = CHR 0x22 then Some 0x22
      else if c = CHR 0x5C then Some 0x5C
      else if c = CHR ''/'' then Some 0x2F
      else if c = CHR ''b'' then Some 8
      else if c = CHR ''f'' then Some 12
      else if c = CHR ''n'' then Some 10
      else if c = CHR ''r'' then Some 13
      else if c = CHR ''t'' then Some 9
      else None)"

definition num_accepting :: "num_state \<Rightarrow> bool" where
  "num_accepting st = (st = NZero \<or> st = NInt \<or> st = NFrac \<or> st = NExpDigits)"

definition num_step :: "num_state \<Rightarrow> char \<Rightarrow> num_state option" where
  "num_step st c =
     (case st of
        NMinus \<Rightarrow> if c = CHR ''0'' then Some NZero else if is_digit c then Some NInt else None
      | NZero \<Rightarrow> if c = CHR ''.'' then Some NDot
                 else if c = CHR ''e'' \<or> c = CHR ''E'' then Some NExp else None
      | NInt \<Rightarrow> if is_digit c then Some NInt
                else if c = CHR ''.'' then Some NDot
                else if c = CHR ''e'' \<or> c = CHR ''E'' then Some NExp else None
      | NDot \<Rightarrow> if is_digit c then Some NFrac else None
      | NFrac \<Rightarrow> if is_digit c then Some NFrac
                 else if c = CHR ''e'' \<or> c = CHR ''E'' then Some NExp else None
      | NExp \<Rightarrow> if c = CHR ''+'' \<or> c = CHR ''-'' then Some NExpSign
                else if is_digit c then Some NExpDigits else None
      | NExpSign \<Rightarrow> if is_digit c then Some NExpDigits else None
      | NExpDigits \<Rightarrow> if is_digit c then Some NExpDigits else None)"

definition emit :: "token \<Rightarrow> token list option \<Rightarrow> token list option" where
  "emit t r = map_option (Cons t) r"

function (sequential) tokens_from :: "lex_mode \<Rightarrow> string \<Rightarrow> token list option" where
  "tokens_from LStart [] = Some []"
| "tokens_from (LNum st lx) [] = (if num_accepting st then Some [TNumber lx] else None)"
| "tokens_from _ [] = None"
| "tokens_from LStart (c # cs) =
     (if is_ws c then tokens_from LStart cs
      else if c = CHR ''{'' then emit TLBrace (tokens_from LStart cs)
      else if c = CHR ''}'' then emit TRBrace (tokens_from LStart cs)
      else if c = CHR ''['' then emit TLBrack (tokens_from LStart cs)
      else if c = CHR '']'' then emit TRBrack (tokens_from LStart cs)
      else if c = CHR '':'' then emit TColon (tokens_from LStart cs)
      else if c = CHR '','' then emit TComma (tokens_from LStart cs)
      else if c = CHR 0x22 then tokens_from (LStr []) cs
      else if c = CHR ''t'' then tokens_from (LLit ''rue'' TTrue) cs
      else if c = CHR ''f'' then tokens_from (LLit ''alse'' TFalse) cs
      else if c = CHR ''n'' then tokens_from (LLit ''ull'' TNull) cs
      else if c = CHR ''-'' then tokens_from (LNum NMinus [c]) cs
      else if c = CHR ''0'' then tokens_from (LNum NZero [c]) cs
      else if is_digit c then tokens_from (LNum NInt [c]) cs
      else None)"
| "tokens_from (LStr acc) (c # cs) =
     (if c = CHR 0x22 then emit (TString acc) (tokens_from LStart cs)
      else if c = CHR 0x5C then tokens_from (LEsc acc) cs
      else if (of_char c :: nat) < 32 then None
      else tokens_from (LStr (acc @ [of_char c])) cs)"
| "tokens_from (LEsc acc) (c # cs) =
     (case escape_of c of
        Some u \<Rightarrow> tokens_from (LStr (acc @ [u])) cs
      | None \<Rightarrow> if c = CHR ''u'' then tokens_from (LUni acc 0 4) cs else None)"
| "tokens_from (LUni acc v k) (c # cs) =
     (case hex_digit c of
        None \<Rightarrow> None
      | Some h \<Rightarrow> if k \<le> 1 then tokens_from (LStr (acc @ [v * 16 + h])) cs
                  else tokens_from (LUni acc (v * 16 + h) (k - 1)) cs)"
| "tokens_from (LLit expected t) (c # cs) =
     (case expected of
        [] \<Rightarrow> None
      | e # es \<Rightarrow> if c \<noteq> e then None
                  else if es = [] then emit t (tokens_from LStart cs)
                  else tokens_from (LLit es t) cs)"
| "tokens_from (LNum st lx) (c # cs) =
     (case num_step st c of
        Some st' \<Rightarrow> tokens_from (LNum st' (lx @ [c])) cs
      | None \<Rightarrow> if num_accepting st then emit (TNumber lx) (tokens_from LStart (c # cs)) else None)"
  by pat_completeness auto
termination
  by (relation "measure (\<lambda>(m, cs). 2 * length cs + (case m of LNum _ _ \<Rightarrow> 1 | _ \<Rightarrow> 0))") auto

datatype frame = FArr "json list" | FObj "(nat list \<times> json) list" "nat list option"

datatype expect = EValue | EValueOrClose | EKeyOrClose | EKey | EColon | ECommaOrClose

datatype pstate = PS expect "frame list" | PDone json

definition push_value :: "json \<Rightarrow> frame list \<Rightarrow> pstate option" where
  "push_value v stack =
     (case stack of
        [] \<Rightarrow> Some (PDone v)
      | FArr vs # st \<Rightarrow> Some (PS ECommaOrClose (FArr (vs @ [v]) # st))
      | FObj ms (Some k) # st \<Rightarrow> Some (PS ECommaOrClose (FObj (ms @ [(k, v)]) None # st))
      | FObj ms None # st \<Rightarrow> None)"

definition begin_value :: "token \<Rightarrow> frame list \<Rightarrow> pstate option" where
  "begin_value t stack =
     (case t of
        TLBrace \<Rightarrow> Some (PS EKeyOrClose (FObj [] None # stack))
      | TLBrack \<Rightarrow> Some (PS EValueOrClose (FArr [] # stack))
      | TString s \<Rightarrow> push_value (JStr s) stack
      | TNumber n \<Rightarrow> push_value (JNum n) stack
      | TTrue \<Rightarrow> push_value (JBool True) stack
      | TFalse \<Rightarrow> push_value (JBool False) stack
      | TNull \<Rightarrow> push_value JNull stack
      | _ \<Rightarrow> None)"

definition close_frame :: "token \<Rightarrow> frame list \<Rightarrow> pstate option" where
  "close_frame t stack =
     (case (t, stack) of
        (TRBrack, FArr vs # st) \<Rightarrow> push_value (JArr vs) st
      | (TRBrace, FObj ms None # st) \<Rightarrow> push_value (JObj ms) st
      | _ \<Rightarrow> None)"

definition parse_step :: "pstate \<Rightarrow> token \<Rightarrow> pstate option" where
  "parse_step p t =
     (case p of
        PDone _ \<Rightarrow> None
      | PS e stack \<Rightarrow>
          (case e of
             EValue \<Rightarrow> begin_value t stack
           | EValueOrClose \<Rightarrow> if t = TRBrack then close_frame t stack else begin_value t stack
           | EKeyOrClose \<Rightarrow>
               (case (t, stack) of
                  (TString k, FObj ms None # st) \<Rightarrow> Some (PS EColon (FObj ms (Some k) # st))
                | (TRBrace, _) \<Rightarrow> close_frame t stack
                | _ \<Rightarrow> None)
           | EKey \<Rightarrow>
               (case (t, stack) of
                  (TString k, FObj ms None # st) \<Rightarrow> Some (PS EColon (FObj ms (Some k) # st))
                | _ \<Rightarrow> None)
           | EColon \<Rightarrow> if t = TColon then Some (PS EValue stack) else None
           | ECommaOrClose \<Rightarrow>
               (case (t, stack) of
                  (TComma, FArr vs # st) \<Rightarrow> Some (PS EValue stack)
                | (TComma, FObj ms None # st) \<Rightarrow> Some (PS EKey stack)
                | (TRBrack, _) \<Rightarrow> close_frame t stack
                | (TRBrace, _) \<Rightarrow> close_frame t stack
                | _ \<Rightarrow> None)))"

fun parse_tokens :: "pstate \<Rightarrow> token list \<Rightarrow> json option" where
  "parse_tokens p [] = (case p of PDone v \<Rightarrow> Some v | PS _ _ \<Rightarrow> None)"
| "parse_tokens p (t # ts) =
     (case parse_step p t of None \<Rightarrow> None | Some p' \<Rightarrow> parse_tokens p' ts)"

definition json_parse :: "string \<Rightarrow> json option" where
  "json_parse text = (case tokens_from LStart text of None \<Rightarrow> None | Some ts \<Rightarrow> parse_tokens (PS EValue []) ts)"

subsection \<open>\<open>analyzeAndAct\<close>\<close>

text \<open>
  The request to the language model belongs to the environment: its outcome is the
  argument, \<open>Inl\<close> of the error's message when \<open>anthropic.messages.create\<close> throws and
  \<open>Inr\<close> of the text of the first content block otherwise. \<open>match_braces\<close> is
  \<open>responseText.match(/\{[\s\S]*\}/)\<close>: the text from the first opening brace to the
  last closing brace after it. Reading \<open>actionData.action\<close> for the log line throws
  when \<open>actionData\<close> is \<open>null\<close>, and the outer \<open>catch\<close> rethrows.
\<close>

definition js :: "string \<Rightarrow> nat list" where
  "js s = map of_char s"

definition match_braces :: "string \<Rightarrow> string option" where
  "match_braces responseText =
     (case dropWhile (\<lambda>c. c \<noteq> CHR ''{'') responseText of
        [] \<Rightarrow> None
      | b # rest \<Rightarrow>
          if CHR ''}'' \<in> set rest
          then Some (b # rev (dropWhile (\<lambda>c. c \<noteq> CHR ''}'') (rev rest)))
          else None)"

definition no_json_action :: json where
  "no_json_action = JObj [(js ''action'', JStr (js ''complete'')),
                          (js ''reasoning'', JStr (js ''Could not parse action from response''))]"

definition invalid_action :: json where
  "invalid_action = JObj [(js ''action'', JStr (js ''complete'')),
                          (js ''reasoning'', JStr (js ''Invalid response format''))]"

definition analyzeAndAct :: "string + string \<Rightarrow> string + json" where
  "analyzeAndAct message =
     (case message of
        Inl msg \<Rightarrow> Inl (''AI analysis failed: '' @ msg)
      | Inr responseText \<Rightarrow>
          (let actionData =
                 (case match_braces responseText of
                    Some jsonMatch \<Rightarrow>
                      (case json_parse jsonMatch of Some v \<Rightarrow> v | None \<Rightarrow> invalid_action)
                  | None \<Rightarrow> no_json_action)
           in if actionData = JNull
              then Inl ''AI analysis failed: Cannot read properties of null (reading 'action')''
              else Inr actionData))"

definition json_member :: "json \<Rightarrow> string \<Rightarrow> json option" where
  "json_member v k = (case v of JObj ms \<Rightarrow> map_of (rev ms) (js k) | _ \<Rightarrow> None)"

subsection \<open>\<open>executeAction\<close> and \<open>testWebsite\<close>\<close>

text \<open>
  A decision is read at its documented type \<open>{action, target?, value?, reasoning}\<close>,
  each of the last three being absent, \<open>null\<close> or a string. The page is the
  environment: each of its methods either returns (\<open>None\<close>) or throws (\<open>Some\<close> of the
  error's message). Two built-ins of the language are arguments, gathered in a record:
  \<open>parseInt\<close>, whose result is \<open>NaN\<close>, an infinity or an integer, and \<open>numberText\<close>,
  the text that a template literal writes for a number. \<open>number_or a b\<close> is \<open>a || b\<close>
  on numbers, of which \<open>NaN\<close> and 0 are falsy.

  One round of the loop of \<open>testWebsite\<close> meets: \<open>it_before\<close>, the first error thrown
  by \<open>page.waitForTimeout(1000)\<close>, \<open>page.title()\<close> or \<open>page.screenshot\<close>, if any;
  \<open>it_context\<close>, the page's URL and title; \<open>it_decision\<close>, what \<open>analyzeAndAct\<close>
  returns or throws; \<open>it_page\<close>, the page as \<open>executeAction\<close> finds it; \<open>it_now\<close>, the
  clock when the entry is logged; \<open>it_after\<close>, the error thrown by
  \<open>page.waitForTimeout(500)\<close>, if any. The progress callback does not throw (its
  default is the empty function). The loop returns \<open>Inr\<close> of the log when it ends,
  and \<open>Inl\<close> of the error's message and the log so far when an error reaches the
  \<open>catch\<close> block of \<open>testWebsite\<close>, which appends one last entry and returns the log:
  \<open>testWebsite\<close> never throws.
\<close>

datatype js_number = NaN | PosInfinity | NegInfinity | Num int

record builtins =
  parseInt :: "jsval \<Rightarrow> js_number"
  numberText :: "js_number \<Rightarrow> string"

definition number_or :: "js_number \<Rightarrow> js_number \<Rightarrow> js_number" where
  "number_or a b = (if a = NaN \<or> a = Num 0 then b else a)"

record page =
  page_click :: "string \<Rightarrow> string option"
  page_fill :: "string \<Rightarrow> string \<Rightarrow> string option"
  page_scrollBy :: "int \<Rightarrow> string option"
  page_goto :: "string \<Rightarrow> string option"
  page_waitForTimeout :: "js_number \<Rightarrow> string option"

definition failed_action :: "action \<Rightarrow> string \<Rightarrow> result" where
  \<comment> \<open>the value returned by the \<open>catch\<close> block of \<open>executeAction\<close>\<close>
  "failed_action a msg =
     \<lparr>res_success = False, res_message = ''Failed to execute '' @ act_action a, res_error = Some msg\<rparr>"

definition done_action :: "action \<Rightarrow> string option \<Rightarrow> string \<Rightarrow> result" where
  \<comment> \<open>a page call that throws lands in the \<open>catch\<close> block; otherwise the \<open>return\<close>
      after it is reached\<close>
  "done_action a thrown msg =
     (case thrown of
        Some e \<Rightarrow> failed_action a e
      | None \<Rightarrow> \<lparr>res_success = True, res_message = msg, res_error = None\<rparr>)"

definition executeAction :: "builtins \<Rightarrow> page \<Rightarrow> action \<Rightarrow> result" where
  "executeAction bi pg a =
     (let actionType = act_action a; target = act_target a; val = act_value a
      in if actionType = ''click'' then
           (if \<not> truthy_val target then failed_action a ''Click action requires a target selector''
            else done_action a (page_click pg (str_of target)) (''Clicked on '' @ tmpl target))
         else if actionType = ''type'' then
           (if \<not> truthy_val target then failed_action a ''Type action requires a target selector''
            else if \<not> truthy_val val then failed_action a ''Type action requires a value''
            else done_action a (page_fill pg (str_of target) (str_of val))
                   (''Typed '' @ [CHR 0x22] @ tmpl val @ [CHR 0x22] @ '' into '' @ tmpl target))
         else if actionType = ''scroll'' then
           done_action a (page_scrollBy pg (if target = Str ''up'' then - 500 else 500))
             (''Scrolled '' @ tmpl target)
         else if actionType = ''navigate'' then
           (if \<not> truthy_val target then failed_action a ''Navigate action requires a target URL''
            else done_action a (page_goto pg (str_of target)) (''Navigated to '' @ tmpl target))
         else if actionType = ''wait'' then
           (let duration = number_or (parseInt bi val) (Num 1000)
            in done_action a (page_waitForTimeout pg duration)
                 (''Waited for '' @ numberText bi duration @ ''ms''))
         else if actionType = ''complete'' then
           \<lparr>res_success = True, res_message = ''Testing complete'', res_error = None\<rparr>
         else
           \<lparr>res_success = False, res_message = ''Unknown action: '' @ actionType, res_error = None\<rparr>)"

record iteration =
  it_before :: "string option"
  it_context :: page_context
  it_decision :: "string + action"
  it_page :: page
  it_now :: int
  it_after :: "string option"

definition maxActions :: nat where
  "maxActions = 15"

definition logged :: "iteration \<Rightarrow> action \<Rightarrow> result \<Rightarrow> action_log" where
  "logged it a r =
     \<lparr>log_timestamp = it_now it, log_action = a, log_result = r, log_context = it_context it\<rparr>"

function testWebsite_loop ::
  "builtins \<Rightarrow> (nat \<Rightarrow> iteration) \<Rightarrow> nat \<Rightarrow> action_log list \<Rightarrow>
   string \<times> action_log list + action_log list" where
  "testWebsite_loop bi env actionCount actionLog =
     (if actionCount < maxActions then
        (case it_before (env actionCount) of
           Some e \<Rightarrow> Inl (e, actionLog)
         | None \<Rightarrow>
             (case it_decision (env actionCount) of
                Inl e \<Rightarrow> Inl (e, actionLog)
              | Inr a \<Rightarrow>
                  if act_action a = ''complete'' then
                    Inr (actionLog @
                      [logged (env actionCount) a
                         \<lparr>res_success = True, res_message = ''Testing completed by AI'',
                          res_error = None\<rparr>])
                  else
                    (case it_after (env actionCount) of
                       Some e \<Rightarrow>
                         Inl (e, actionLog @
                           [logged (env actionCount) a
                              (executeAction bi (it_page (env actionCount)) a)])
                     | None \<Rightarrow>
                         testWebsite_loop bi env (actionCount + 1)
                           (actionLog @
                              [logged (env actionCount) a
                                 (executeAction bi (it_page (env actionCount)) a)]))))
      else Inr actionLog)"
  by pat_completeness auto
termination
  by (relation "measure (\<lambda>(bi, env, actionCount, actionLog). maxActions - actionCount)") auto

declare testWebsite_loop.simps [simp del]

definition testing_failed :: "int \<Rightarrow> string \<Rightarrow> string \<Rightarrow> action_log" where
  \<comment> \<open>the entry pushed by the \<open>catch\<close> block of \<open>testWebsite\<close>\<close>
  "testing_failed now u msg =
     \<lparr>log_timestamp = now,
      log_action = \<lparr>act_action = ''error'', act_target = Undefined, act_value = Undefined,
                    act_reasoning = Str ''Testing failed''\<rparr>,
      log_result = \<lparr>res_success = False, res_message = msg, res_error = None\<rparr>,
      log_context = \<lparr>ctx_url = u, ctx_title = None\<rparr>\<rparr>"

definition testWebsite ::
  "builtins \<Rightarrow> string option \<Rightarrow> (nat \<Rightarrow> iteration) \<Rightarrow> int \<Rightarrow> string \<Rightarrow>
   action_log list" where
  \<comment> \<open>\<open>setup\<close> is the error thrown before the loop (by \<open>page.setViewportSize\<close> or the
      first \<open>page.goto\<close>), if any\<close>
  "testWebsite bi setup env catch_now catch_url =
     (case setup of
        Some e \<Rightarrow> [testing_failed catch_now catch_url e]
      | None \<Rightarrow>
          (case testWebsite_loop bi env 0 [] of
             Inr actionLog \<Rightarrow> actionLog
           | Inl (e, actionLog) \<Rightarrow> actionLog @ [testing_failed catch_now catch_url e]))"

section \<open>Sample inputs\<close>

definition sample_session :: provider_session where
  "sample_session = \<lparr>ps_id = ''sess-1'', ps_liveUrl = None, ps_debugUrl = None\<rparr>"

definition sample_logs :: "action_log list" where
  "sample_logs =
     [\<lparr>log_timestamp = 1000,
       log_action = \<lparr>act_action = ''navigate'', act_target = Undefined, act_value = Undefined,
                     act_reasoning = Str ''Initial navigation to target URL''\<rparr>,
       log_result = \<lparr>res_success = True, res_message = ''Navigated to https://example.com'',
                     res_error = None\<rparr>,
       log_context = \<lparr>ctx_url = ''https://example.com/'', ctx_title = Some ''Example Domain''\<rparr>\<rparr>,
      \<lparr>log_timestamp = 2500,
       log_action = \<lparr>act_action = ''click'', act_target = Str ''#btn'', act_value = Undefined,
                     act_reasoning = Str ''test''\<rparr>,
       log_result = \<lparr>res_success = False, res_message = ''Failed to execute click'',
                     res_error = Some ''Timeout 5000ms exceeded''\<rparr>,
       log_context = \<lparr>ctx_url = ''https://example.com/'', ctx_title = Some ''Example Domain''\<rparr>\<rparr>,
      \<lparr>log_timestamp = 4000,
       log_action = \<lparr>act_action = ''scroll'', act_target = Str ''down'', act_value = Undefined,
                     act_reasoning = Str ''Scroll to bottom of page''\<rparr>,
       log_result = \<lparr>res_success = True, res_message = ''Scrolled down'', res_error = None\<rparr>,
       log_context = \<lparr>ctx_url = ''https://example.com/'', ctx_title = None\<rparr>\<rparr>]"

definition sample_db :: db where
  "sample_db =
     \<lparr>tests = [''t1'' \<mapsto>
                 \<lparr>url = ''https://example.com'', status = Running, created_at = 10,
                  started_at = Some 11, completed_at = None,
                  browserbase_session_id = Some ''sess-1'', error = None\<rparr>],
      reports = []\<rparr>"

definition never_completed :: "nat \<Rightarrow> retrieved" where
  \<comment> \<open>a session that the provider reports as still running at every poll\<close>
  "never_completed attempt = Retrieved ''RUNNING'' None"

definition always_throws :: "nat \<Rightarrow> retrieved" where
  "always_throws attempt = RetrieveThrows ''fetch failed''"

definition no_sessions :: "nat \<Rightarrow> string + provider_session" where
  "no_sessions i = Inl ''quota exceeded''"

definition sample_state :: state where
  "sample_state = \<lparr>database = sample_db, activeSessions =
       [(''t1'', \<lparr>as_status = Running, as_progress = [], as_queuePosition = None,
                 as_queuedAt = None, as_startedAt = Some 11\<rparr>)],
     testQueue = [], isProcessingQueue = False, jobs = [(''t1'', ''sess-1'')]\<rparr>"

definition sessions_available :: "nat \<Rightarrow> string + provider_session" where
  "sessions_available i = Inr \<lparr>ps_id = ''sess-2'', ps_liveUrl = None, ps_debugUrl = None\<rparr>"

definition stop_scenario :: "event list" where
  "stop_scenario = [Start ''A'' (Some ''https://example.com'') True 1 (Inr sample_session), Stop ''A'' 2]"

definition three_starts :: "event list" where
  "three_starts =
     [Start ''A'' (Some ''https://example.com'') True 1 (Inr sample_session),
      Start ''B'' (Some ''https://example.org'') True 2 (Inr sample_session),
      Start ''C'' (Some ''https://example.net'') True 3 (Inr sample_session)]"

definition sample_members :: string where
  \<open>sample_members = ''"action":"click","target":"#btn","reasoning":"test"''\<close>

definition sample_text :: string where
  "sample_text = CHR ''{'' # sample_members @ [CHR ''}'']"

definition prose_text :: string where
  "prose_text = ''I will click the button. '' @ sample_text @ '' Done.''"

definition braces_text :: string where
  "braces_text = ''Use {x}. '' @ sample_text"

definition sample_action :: json where
  "sample_action = JObj [(js ''action'', JStr (js ''click'')), (js ''target'', JStr (js ''#btn'')),
              (js ''reasoning'', JStr (js ''test''))]"

definition stuck_page :: page where
  \<comment> \<open>a page on which every click times out and no navigation gets through\<close>
  "stuck_page = \<lparr>page_click = (\<lambda>target. Some ''Timeout 5000ms exceeded''),
                  page_fill = (\<lambda>target v. None), page_scrollBy = (\<lambda>distance. None),
                  page_goto = (\<lambda>target. Some ''net::ERR_CONNECTION_REFUSED''),
                  page_waitForTimeout = (\<lambda>duration. None)\<rparr>"

definition broken_page :: page where
  \<comment> \<open>a page that has been closed: every call throws\<close>
  "broken_page = \<lparr>page_click = (\<lambda>target. Some ''Target closed''),
                   page_fill = (\<lambda>target v. Some ''Target closed''),
                   page_scrollBy = (\<lambda>distance. Some ''Target closed''),
                   page_goto = (\<lambda>target. Some ''Target closed''),
                   page_waitForTimeout = (\<lambda>duration. Some ''Target closed'')\<rparr>"

definition click_missing :: action where
  "click_missing = \<lparr>act_action = ''click'', act_target = Str ''#missing'', act_value = Undefined,
                     act_reasoning = Str ''Try the button''\<rparr>"

definition type_no_value :: action where
  "type_no_value = \<lparr>act_action = ''type'', act_target = Str ''#email'', act_value = Null,
                     act_reasoning = Str ''Fill in the form''\<rparr>"

definition navigate_down :: action where
  "navigate_down = \<lparr>act_action = ''navigate'', act_target = Str ''https://down.example/'',
                     act_value = Undefined, act_reasoning = Str ''Follow the link''\<rparr>"

definition hover_menu :: action where
  "hover_menu = \<lparr>act_action = ''hover'', act_target = Str ''#menu'', act_value = Undefined,
                  act_reasoning = Str ''Open the menu''\<rparr>"

definition wait_250 :: action where
  "wait_250 = \<lparr>act_action = ''wait'', act_target = Undefined, act_value = Str ''250'',
                act_reasoning = Str ''Let the page settle''\<rparr>"

definition scroll_null :: action where
  "scroll_null = \<lparr>act_action = ''scroll'', act_target = Null, act_value = Undefined,
                   act_reasoning = Str ''Look further down''\<rparr>"

definition sample_actions :: "action list" where
  "sample_actions = [click_missing, type_no_value, navigate_down, hover_menu, wait_250]"

definition failing_env :: "nat \<Rightarrow> iteration" where
  \<comment> \<open>rounds that take the five sample decisions in turn, on the stuck page\<close>
  "failing_env =
     (\<lambda>i. \<lparr>it_before = None,
           it_context = \<lparr>ctx_url = ''https://example.com/'', ctx_title = Some ''Example Domain''\<rparr>,
           it_decision = Inr (sample_actions ! (i mod 5)), it_page = stuck_page,
           it_now = 1000 + 2000 * int i, it_after = None\<rparr>)"

definition complete_decision :: action where
  "complete_decision = \<lparr>act_action = ''complete'', act_target = Undefined, act_value = Undefined,
                         act_reasoning = Str ''Everything has been tried''\<rparr>"

definition stopping_env :: "nat \<Rightarrow> iteration" where
  \<comment> \<open>two failing rounds, then the decision to stop\<close>
  "stopping_env =
     (\<lambda>i. if i < 2 then failing_env i
          else \<lparr>it_before = None,
                it_context = \<lparr>ctx_url = ''https://example.com/'', ctx_title = Some ''Example Domain''\<rparr>,
                it_decision = Inr complete_decision, it_page = stuck_page,
                it_now = 1000 + 2000 * int i, it_after = None\<rparr>)"

definition sample_builtins :: builtins where
  \<comment> \<open>the two built-ins on the values that the sample decisions hold\<close>
  "sample_builtins =
     \<lparr>parseInt = (\<lambda>v. if v = Str ''250'' then Num 250 else NaN),
      numberText = (\<lambda>n. case n of NaN \<Rightarrow> ''NaN'' | PosInfinity \<Rightarrow> ''Infinity''
                         | NegInfinity \<Rightarrow> ''-Infinity''
                         | Num i \<Rightarrow> (if i < 0 then ''-'' else []) @ show_nat (nat \<bar>i\<bar>))\<rparr>"

section \<open>Invariant of the admission queue\<close>

text \<open>
  What holds of the module's variables after any sequence of events: no drain is in
  progress between two events; every request waiting in \<open>testQueue\<close> still has its
  entry in \<open>activeSessions\<close> and the status \<open>'queued'\<close>; the run of a pending job is
  \<open>'running'\<close> or \<open>'stopped'\<close>; and a \<open>'running'\<close> run has its entry in
  \<open>activeSessions\<close>.
\<close>

definition queue_inv :: "state \<Rightarrow> bool" where
  "queue_inv s \<longleftrightarrow>
     \<not> isProcessingQueue s
     \<and> (\<forall>q \<in> set (testQueue s). qt_testId q \<in> fst ` set (activeSessions s)
                                  \<and> status_of s (qt_testId q) = Some Queued)
     \<and> (\<forall>j \<in> set (jobs s). status_of s (fst j) = Some Running \<or> status_of s (fst j) = Some Stopped)
     \<and> (\<forall>t. status_of s t = Some Running \<longrightarrow> t \<in> fst ` set (activeSessions s))"

section \<open>Predicates used in the proofs\<close>

text \<open>
  \<open>rooted_in_object\<close> holds of a stack of open containers whose outermost one is an
  object, and \<open>yields_object\<close> of a parser state that can only end in an object.
  \<open>log_of\<close> reads the log out of either outcome of the testing loop.
\<close>

fun is_object :: "json \<Rightarrow> bool" where
  "is_object (JObj ms) = True"
| "is_object _ = False"

fun rooted_in_object :: "frame list \<Rightarrow> bool" where
  "rooted_in_object [] = False"
| "rooted_in_object [FObj ms k] = True"
| "rooted_in_object [FArr vs] = False"
| "rooted_in_object (f # g # st) = rooted_in_object (g # st)"

fun yields_object :: "pstate \<Rightarrow> bool" where
  "yields_object (PDone v) = is_object v"
| "yields_object (PS e stack) = rooted_in_object stack"

fun log_of :: "string \<times> action_log list + action_log list \<Rightarrow> action_log list" where
  "log_of (Inl (e, l)) = l"
| "log_of (Inr l) = l"

section \<open>Verified properties\<close>

subsection \<open>Helper lemmas: recording URL and report builder\<close>

lemma getRecordingUrl_from_always:
  "getRecordingUrl_from retrieve sid maxRetries attempt = Some (''https://browserbase.com/sessions/'' @ sid)"
proof (induction retrieve sid maxRetries attempt rule: getRecordingUrl_from.induct)
  case (1 retrieve sid maxRetries attempt)
  then show ?case
    by (subst getRecordingUrl_from.simps) auto
qed

lemma getRecordingUrl_always:
  "getRecordingUrl retrieve sid maxRetries = Some (''https://browserbase.com/sessions/'' @ sid)"
  by (simp add: getRecordingUrl_def getRecordingUrl_from_always)

lemma generateReport_Inr:
  "generateReport d retrieve now testId logs sid = Inr (rep, d') \<Longrightarrow>
     rep_summary rep =
       \<lparr>pagesVisited = length (first_seen (filter (\<lambda>u. u \<noteq> []) (map (\<lambda>l. ctx_url (log_context l)) logs))),
        actionsPerformed = length logs,
        issuesFound = length (issues_of logs),
        duration = duration_of logs,
        successRateText = toFixed2 (successRate (performanceMetrics_of logs)) @ ''%''\<rparr>
     \<and> rep_navigationPath rep = navigationPath_of logs
     \<and> rep_issues rep = issues_of logs
     \<and> rep_performanceMetrics rep = performanceMetrics_of logs"
  by (auto simp: generateReport_def Let_def split: sum.splits)

lemma generateReport_succeeds:
  "tests d testId = Some r \<Longrightarrow> \<exists>rep d'. generateReport d retrieve now testId logs sid = Inr (rep, d')"
  by (simp add: generateReport_def Let_def createReport_def)

lemma duration_of_alt:
  "duration_of logs = (if logs = [] then 0 else log_timestamp (last logs) - log_timestamp (hd logs))"
  by (cases logs) (simp_all add: duration_of_def)

lemma duration_of_short: "length logs < 2 \<Longrightarrow> duration_of logs = 0"
  by (cases logs) (auto simp: duration_of_def)

lemma sample_generateReport:
  "\<exists>rep d'. generateReport sample_db never_completed 5000 ''t1'' sample_logs ''sess-1'' = Inr (rep, d')"
  by (simp add: generateReport_def Let_def createReport_def sample_db_def)

subsection \<open>Helper lemmas: rounding to a double\<close>

lemma floor_log2_bounds:
  "0 < n \<Longrightarrow> 2 ^ floor_log2 n \<le> n \<and> n < 2 ^ Suc (floor_log2 n)"
proof (induction n rule: floor_log2.induct)
  case (1 n)
  show ?case
  proof (cases "n < 2")
    case True
    with "1.prems" have "n = 1" by simp
    then show ?thesis by (simp add: floor_log2.simps)
  next
    case False
    then have "0 < n div 2" by simp
    from "1.IH" [OF False this]
    have "2 ^ floor_log2 (n div 2) \<le> n div 2" and "n div 2 < 2 ^ Suc (floor_log2 (n div 2))"
      by simp_all
    then have "2 * 2 ^ floor_log2 (n div 2) \<le> n" and "n < 2 * 2 ^ Suc (floor_log2 (n div 2))"
      by linarith+
    then show ?thesis using False
      by (subst floor_log2.simps, subst (2) floor_log2.simps) simp
  qed
qed

lemma exponent_bounds:
  assumes "0 < a"
  shows "2 powi exponent a \<le> a" and "a < 2 powi (exponent a + 1)"
proof -
  have "2 powi exponent a \<le> a \<and> a < 2 powi (exponent a + 1)"
  proof (cases "1 \<le> a")
    case True
    define n where "n = nat \<lfloor>a\<rfloor>"
    from True have n1: "0 < n" by (simp add: n_def)
    have na: "of_nat n \<le> a" "a < of_nat n + 1"
      using True by (simp_all add: n_def) linarith+
    from floor_log2_bounds [OF n1]
    have b: "2 ^ floor_log2 n \<le> n" "n + 1 \<le> 2 ^ Suc (floor_log2 n)"
      by simp_all
    from b(1) have "(of_nat (2 ^ floor_log2 n) :: rat) \<le> of_nat n"
      by (simp only: of_nat_le_iff)
    then have "(2::rat) ^ floor_log2 n \<le> of_nat n"
      by simp
    moreover from b(2) have "(of_nat (n + 1) :: rat) \<le> of_nat (2 ^ Suc (floor_log2 n))"
      by (simp only: of_nat_le_iff)
    then have "(of_nat n + 1 :: rat) \<le> 2 ^ Suc (floor_log2 n)"
      by simp
    ultimately have "2 ^ floor_log2 n \<le> a" "a < 2 ^ Suc (floor_log2 n)"
      using na by linarith+
    moreover have "exponent a = int (floor_log2 n)"
      using True by (simp add: exponent_def n_def)
    ultimately show ?thesis
      by (simp add: power_int_add)
  next
    case False
    define m where "m = nat \<lceil>1 / a\<rceil>"
    from False assms have big: "1 < 1 / a" by simp
    then have "2 \<le> \<lceil>1 / a\<rceil>" by linarith
    then have m2: "2 \<le> m" unfolding m_def by linarith
    have ma: "1 / a \<le> of_nat m" "of_nat m - 1 < 1 / a"
      using big by (simp_all add: m_def) linarith+
    from m2 have "0 < m - 1" by simp
    from floor_log2_bounds [OF this] m2
    have b: "2 ^ floor_log2 (m - 1) + 1 \<le> m" "m \<le> 2 ^ Suc (floor_log2 (m - 1))"
      by linarith+
    let ?l = "floor_log2 (m - 1)"
    from b(1) have "(of_nat (2 ^ ?l + 1) :: rat) \<le> of_nat m"
      by (simp only: of_nat_le_iff)
    then have "(2::rat) ^ ?l + 1 \<le> of_nat m"
      by simp
    moreover from b(2) have "(of_nat m :: rat) \<le> of_nat (2 ^ Suc ?l)"
      by (simp only: of_nat_le_iff)
    then have "(of_nat m :: rat) \<le> 2 ^ Suc ?l"
      by simp
    ultimately have c: "2 ^ ?l < 1 / a" "1 / a \<le> 2 ^ Suc ?l"
      using ma by linarith+
    have e: "exponent a = - int (Suc ?l)"
      using False by (simp add: exponent_def m_def)
    have p: "(0::rat) < 2 ^ ?l" "(0::rat) < 2 ^ Suc ?l" by simp_all
    from c(2) assms have lo: "1 / 2 ^ Suc ?l \<le> a"
      using p(2) by (simp add: field_simps)
    from c(1) assms have hi: "a < 1 / 2 ^ ?l"
      using p(1) by (simp add: field_simps)
    have e1: "exponent a + 1 = - int ?l" using e by simp
    have pe: "(2::rat) powi (- int (Suc ?l)) = 1 / 2 ^ Suc ?l"
      by (simp only: power_int_minus power_int_of_nat inverse_eq_divide)
    have pe1: "(2::rat) powi (- int ?l) = 1 / 2 ^ ?l"
      by (simp only: power_int_minus power_int_of_nat inverse_eq_divide)
    show ?thesis
      unfolding e1 unfolding e pe pe1 using lo hi by blast
  qed
  then show "2 powi exponent a \<le> a" and "a < 2 powi (exponent a + 1)"
    by simp_all
qed

lemma exponent_unique:
  assumes "2 powi e \<le> a" and "a < 2 powi (e + 1)"
  shows "exponent a = e"
proof -
  have "(0::rat) < 2 powi e" by simp
  with assms have pos: "0 < a" by linarith
  note b = exponent_bounds [OF pos]
  have "\<not> exponent a < e"
  proof
    assume "exponent a < e"
    then have "exponent a + 1 \<le> e" by simp
    then have "(2::rat) powi (exponent a + 1) \<le> 2 powi e"
      by (intro power_int_increasing) simp_all
    with b(2) assms(1) show False by linarith
  qed
  moreover have "\<not> e < exponent a"
  proof
    assume "e < exponent a"
    then have "e + 1 \<le> exponent a" by simp
    then have "(2::rat) powi (e + 1) \<le> 2 powi exponent a"
      by (intro power_int_increasing) simp_all
    with b(1) assms(2) show False by linarith
  qed
  ultimately show ?thesis by simp
qed

lemma round_half_even_near:
  "\<bar>of_int (round_half_even q) - q\<bar> \<le> 1 / 2"
  unfolding round_half_even_def Let_def
  by (auto simp: abs_if) linarith+

lemma round_half_even_eqI:
  assumes "of_int m - 1 / 2 < q" and "q < of_int m + 1 / 2"
  shows "round_half_even q = m"
proof -
  have n: "\<bar>of_int (round_half_even q) - q\<bar> \<le> 1 / 2"
    by (rule round_half_even_near)
  have "\<bar>(of_int (round_half_even q) :: rat) - of_int m\<bar> < 1"
    using assms n by (auto simp: abs_if split: if_splits)
  then have "\<bar>round_half_even q - m\<bar> < 1"
    by (metis of_int_abs of_int_diff of_int_less_1_iff)
  then show ?thesis by simp
qed

lemma round_half_even_numeral: "round_half_even (numeral n) = numeral n"
  using round_half_even_eqI [of "numeral n" "numeral n"] by simp

lemma double_round_pos:
  assumes "2 powi e \<le> a" and "a < 2 powi (e + 1)"
  shows "double_round a = of_int (round_half_even (a / 2 powi (e - 52))) * 2 powi (e - 52)"
proof -
  have "(0::rat) < 2 powi e" by simp
  with assms have pos: "0 < a" by linarith
  then show ?thesis
    by (simp add: double_round_def Let_def exponent_unique [OF assms])
qed

lemma double_round_eqI:
  assumes "2 powi e \<le> a" and "a < 2 powi (e + 1)"
    and "of_int m - 1 / 2 < a / 2 powi (e - 52)" and "a / 2 powi (e - 52) < of_int m + 1 / 2"
  shows "double_round a = of_int m * 2 powi (e - 52)"
  unfolding double_round_pos [OF assms(1,2)] round_half_even_eqI [OF assms(3,4)] ..

lemma double_round_error:
  assumes "0 < a"
  shows "\<bar>double_round a - a\<bar> \<le> a / 2 ^ 53"
proof -
  let ?e = "exponent a"
  let ?u = "(2::rat) powi (?e - 52)"
  have u: "0 < ?u" by simp
  note b = exponent_bounds [OF assms]
  have d: "double_round a = of_int (round_half_even (a / ?u)) * ?u"
    by (rule double_round_pos [OF b])
  have "\<bar>double_round a - a\<bar> = \<bar>of_int (round_half_even (a / ?u)) - a / ?u\<bar> * ?u"
  proof -
    have "double_round a - a = (of_int (round_half_even (a / ?u)) - a / ?u) * ?u"
      unfolding d using u by (simp add: field_simps)
    then show ?thesis using u by (simp add: abs_mult)
  qed
  also have "\<dots> \<le> 1 / 2 * ?u"
    using round_half_even_near [of "a / ?u"] u by (intro mult_right_mono) simp_all
  also have "\<dots> = 2 powi ?e / 2 ^ 53"
    by (simp add: power_int_diff)
  also have "\<dots> \<le> a / 2 ^ 53"
    using b(1) by (simp add: divide_right_mono)
  finally show ?thesis .
qed

lemma double_round_0: "double_round 0 = 0"
  by (simp add: double_round_def)

lemma double_round_1: "double_round 1 = 1"
  using double_round_pos [of 0 1] by (simp add: power_int_minus round_half_even_numeral)

lemma double_round_100: "double_round 100 = 100"
  using double_round_pos [of 6 100] by (simp add: power_int_minus round_half_even_numeral)

lemma double_percent_bound:
  assumes "k \<le> n" and "0 < n"
  shows "\<bar>double_mul (double_div (of_nat k) (of_nat n)) 100 - 100 * of_nat k / of_nat n\<bar> \<le> 1 / 2 ^ 45"
proof (cases "k = 0")
  case True
  then show ?thesis by (simp add: double_div_def double_mul_def double_round_0)
next
  case False
  define x :: rat where "x = of_nat k / of_nat n"
  have x: "0 < x" "x \<le> 1"
    using assms False by (simp_all add: x_def)
  define x1 where "x1 = double_round x"
  define y where "y = double_round (x1 * 100)"
  have e1: "\<bar>x1 - x\<bar> \<le> x / 2 ^ 53"
    unfolding x1_def by (rule double_round_error [OF x(1)])
  have small: "x / 2 ^ 53 \<le> 1 / 2 ^ 53"
    using x(2) by (simp add: divide_right_mono)
  have less: "x / 2 ^ 53 < x"
    using x(1) by simp
  from e1 less have x1pos: "0 < x1"
    by linarith
  from e1 small x(2) have x1le: "x1 \<le> 1 + 1 / 2 ^ 53"
    by linarith
  have e2: "\<bar>y - x1 * 100\<bar> \<le> x1 * 100 / 2 ^ 53"
    unfolding y_def using x1pos by (intro double_round_error) simp
  have e3: "x1 * 100 / 2 ^ 53 \<le> (1 + 1 / 2 ^ 53) * 100 / 2 ^ 53"
    using x1le by (intro divide_right_mono mult_right_mono) simp_all
  have num: "(1 + 1 / 2 ^ 53) * 100 / 2 ^ 53 + 100 * (1 / 2 ^ 53) \<le> (1 / 2 ^ 45 :: rat)"
    by simp
  from e1 small have "\<bar>x1 - x\<bar> \<le> 1 / 2 ^ 53"
    by (rule order_trans)
  then have e4: "100 * \<bar>x1 - x\<bar> \<le> 100 * (1 / 2 ^ 53)"
    by (intro mult_left_mono) simp_all
  have "\<bar>y - 100 * x\<bar> = \<bar>(y - x1 * 100) + 100 * (x1 - x)\<bar>"
    by (simp add: algebra_simps)
  also have "\<dots> \<le> \<bar>y - x1 * 100\<bar> + \<bar>100 * (x1 - x)\<bar>"
    by (rule abs_triangle_ineq)
  also have "\<dots> = \<bar>y - x1 * 100\<bar> + 100 * \<bar>x1 - x\<bar>"
    by (simp only: abs_mult abs_numeral)
  also have "\<dots> \<le> x1 * 100 / 2 ^ 53 + 100 * (1 / 2 ^ 53)"
    using e2 e4 by (rule add_mono)
  also have "\<dots> \<le> (1 + 1 / 2 ^ 53) * 100 / 2 ^ 53 + 100 * (1 / 2 ^ 53)"
    using e3 by (rule add_right_mono)
  also note num
  finally have "\<bar>y - 100 * x\<bar> \<le> 1 / 2 ^ 45" .
  then show ?thesis
    by (simp add: y_def x1_def x_def double_div_def double_mul_def)
qed

lemma two_thirds_percent:
  "double_mul (double_div 2 3) 100 = 2345624805922133 / 35184372088832"
proof -
  have q: "double_div 2 3 = 6004799503160661 / 9007199254740992"
    unfolding double_div_def
    using double_round_eqI [of "-1" "2 / 3" 6004799503160661]
    by (simp add: power_int_minus)
  show ?thesis
    unfolding q double_mul_def
    using double_round_eqI [of 6 "6004799503160661 / 9007199254740992 * 100" 4691249611844266]
    by (simp add: power_int_minus)
qed

lemma nearest_to_two_thirds_percent:
  "double_div (100 * 2) 3 = 4691249611844267 / 70368744177664"
  unfolding double_div_def
  using double_round_eqI [of 6 "100 * 2 / 3" 4691249611844267]
  by (simp add: power_int_minus)

lemma toFixed2_sample: "toFixed2 (2345624805922133 / 35184372088832) = ''66.67''"
proof -
  have "\<lfloor>\<bar>2345624805922133 / 35184372088832 :: rat\<bar> * 100 + 1 / 2\<rfloor> = 6667"
    by (simp add: floor_eq_iff)
  then have n: "nat \<lfloor>\<bar>2345624805922133 / 35184372088832 :: rat\<bar> * 100 + 1 / 2\<rfloor> = 6667"
    by simp
  have s: "show_nat 66 = ''66''"
    by (simp add: show_nat.simps digit_char_def)
  show ?thesis
    unfolding toFixed2_def Let_def n
    by (simp add: s digit_char_def)
qed

lemma success_rate_23_of_160:
  "double_mul (double_div 23 160) 100 = 8092405580431359 / 562949953421312"
  "toFixed2 (8092405580431359 / 562949953421312) = ''14.37''"
proof -
  have q: "double_div 23 160 = 5179139571476070 / 36028797018963968"
    unfolding double_div_def
    using double_round_eqI [of "-3" "23 / 160" 5179139571476070]
    by (simp add: power_int_minus)
  show "double_mul (double_div 23 160) 100 = 8092405580431359 / 562949953421312"
    unfolding q double_mul_def
    using double_round_eqI [of 3 "5179139571476070 / 36028797018963968 * 100" 8092405580431359]
    by (simp add: power_int_minus)
  have "\<lfloor>\<bar>8092405580431359 / 562949953421312 :: rat\<bar> * 100 + 1 / 2\<rfloor> = 1437"
    by (simp add: floor_eq_iff)
  then have n: "nat \<lfloor>\<bar>8092405580431359 / 562949953421312 :: rat\<bar> * 100 + 1 / 2\<rfloor> = 1437"
    by simp
  have s: "show_nat 14 = ''14''"
    by (simp add: show_nat.simps digit_char_def)
  show "toFixed2 (8092405580431359 / 562949953421312) = ''14.37''"
    unfolding toFixed2_def Let_def n
    by (simp add: s digit_char_def)
qed

lemma toFixed2_100: "toFixed2 100 = ''100.00''"
proof -
  have "\<lfloor>\<bar>100 :: rat\<bar> * 100 + 1 / 2\<rfloor> = 10000"
    by (simp add: floor_eq_iff)
  then have n: "nat \<lfloor>\<bar>100 :: rat\<bar> * 100 + 1 / 2\<rfloor> = 10000"
    by simp
  have s: "show_nat 100 = ''100''"
    by (simp add: show_nat.simps digit_char_def)
  show ?thesis
    unfolding toFixed2_def Let_def n
    by (simp add: s digit_char_def)
qed

lemma toFixed2_0: "toFixed2 0 = ''0.00''"
  by (simp add: toFixed2_def Let_def show_nat.simps digit_char_def)

lemma filter_all: "(\<forall>x \<in> set xs. P x) \<Longrightarrow> filter P xs = xs"
  by (induction xs) simp_all

lemma filter_none: "(\<forall>x \<in> set xs. \<not> P x) \<Longrightarrow> filter P xs = []"
  by (induction xs) simp_all

subsection \<open>The metrics of a built report\<close>

text \<open>
  Claim C3, as amended. Whenever \<open>generateReport\<close> returns a report for a list of
  action-log entries: \<open>summary.issuesFound\<close> is the number of entries whose
  \<open>result.success\<close> is false; \<open>performanceMetrics.successRate\<close> is 0 for the empty list
  and otherwise the product with 100 of the quotient of the number of successful
  entries by the number of entries, the quotient and the product each rounded to a
  double. That number is within \<open>2^-45\<close> of 100 times the number of successful
  entries divided by the number of entries; it is exactly 100 when every entry
  succeeded and exactly 0 when none did. The summary carries it as text, \<open>toFixed(2)\<close>
  followed by a percent sign. \<open>summary.duration\<close> is the last entry's timestamp minus
  the first entry's, and 0 when the list has fewer than two entries.
\<close>

theorem generateReport_metrics:
  assumes "generateReport d retrieve now testId logs sid = Inr (rep, d')"
  shows "issuesFound (rep_summary rep) = length (filter (\<lambda>l. \<not> res_success (log_result l)) logs)
       \<and> successRate (rep_performanceMetrics rep) =
           (if logs = [] then 0
            else double_mul
                   (double_div (of_nat (length (filter (\<lambda>l. res_success (log_result l)) logs)))
                               (of_nat (length logs)))
                   100)
       \<and> \<bar>successRate (rep_performanceMetrics rep) -
            (if logs = [] then 0
             else 100 * of_nat (length (filter (\<lambda>l. res_success (log_result l)) logs)) / of_nat (length logs))\<bar>
           \<le> 1 / 2 ^ 45
       \<and> (logs \<noteq> [] \<and> (\<forall>l \<in> set logs. res_success (log_result l)) \<longrightarrow>
            successRate (rep_performanceMetrics rep) = 100)
       \<and> ((\<forall>l \<in> set logs. \<not> res_success (log_result l)) \<longrightarrow>
            successRate (rep_performanceMetrics rep) = 0)
       \<and> successRateText (rep_summary rep) = toFixed2 (successRate (rep_performanceMetrics rep)) @ ''%''
       \<and> duration (rep_summary rep) =
           (if logs = [] then 0 else log_timestamp (last logs) - log_timestamp (hd logs))
       \<and> (length logs < 2 \<longrightarrow> duration (rep_summary rep) = 0)"
proof -
  note r = generateReport_Inr [OF assms]
  let ?ok = "filter (\<lambda>l. res_success (log_result l)) logs"
  have 1: "issuesFound (rep_summary rep) = length (filter (\<lambda>l. \<not> res_success (log_result l)) logs)"
    using r by (simp add: issues_of_def)
  have 2: "successRate (rep_performanceMetrics rep) =
           (if logs = [] then 0
            else double_mul (double_div (of_nat (length ?ok)) (of_nat (length logs))) 100)"
    using r by (simp add: performanceMetrics_of_def)
  have 3: "\<bar>successRate (rep_performanceMetrics rep) -
            (if logs = [] then 0 else 100 * of_nat (length ?ok) / of_nat (length logs))\<bar> \<le> 1 / 2 ^ 45"
  proof (cases "logs = []")
    case True
    then show ?thesis using 2 by simp
  next
    case False
    then have "length ?ok \<le> length logs" and "0 < length logs"
      by simp_all
    from double_percent_bound [OF this] show ?thesis
      using 2 False by simp
  qed
  have 4: "logs \<noteq> [] \<and> (\<forall>l \<in> set logs. res_success (log_result l)) \<longrightarrow>
            successRate (rep_performanceMetrics rep) = 100"
  proof
    assume a: "logs \<noteq> [] \<and> (\<forall>l \<in> set logs. res_success (log_result l))"
    then have "?ok = logs" by (simp add: filter_all)
    then show "successRate (rep_performanceMetrics rep) = 100"
      using 2 a by (simp add: double_div_def double_mul_def double_round_1 double_round_100)
  qed
  have 5: "(\<forall>l \<in> set logs. \<not> res_success (log_result l)) \<longrightarrow>
            successRate (rep_performanceMetrics rep) = 0"
  proof
    assume "\<forall>l \<in> set logs. \<not> res_success (log_result l)"
    then have "?ok = []" by (simp add: filter_none)
    then show "successRate (rep_performanceMetrics rep) = 0"
      using 2 by (simp add: double_div_def double_mul_def double_round_0)
  qed
  have 6: "successRateText (rep_summary rep) = toFixed2 (successRate (rep_performanceMetrics rep)) @ ''%''"
    using r by simp
  have 7: "duration (rep_summary rep) =
           (if logs = [] then 0 else log_timestamp (last logs) - log_timestamp (hd logs))"
    using r by (simp add: duration_of_alt)
  have 8: "length logs < 2 \<longrightarrow> duration (rep_summary rep) = 0"
    using r by (simp add: duration_of_short)
  from 1 2 3 4 5 6 7 8 show ?thesis by blast
qed

theorem generateReport_metrics_witness:
  "(\<exists>rep d'. generateReport sample_db never_completed 5000 ''t1'' sample_logs ''sess-1'' = Inr (rep, d')
     \<and> issuesFound (rep_summary rep) = 1
     \<and> successRate (rep_performanceMetrics rep) = 2345624805922133 / 35184372088832
     \<and> successRateText (rep_summary rep) = ''66.67%''
     \<and> duration (rep_summary rep) = 3000)
   \<and> (\<exists>rep d'. generateReport sample_db never_completed 5000 ''t1'' (take 1 sample_logs) ''sess-1'' = Inr (rep, d')
     \<and> issuesFound (rep_summary rep) = 0
     \<and> successRate (rep_performanceMetrics rep) = 100
     \<and> successRateText (rep_summary rep) = ''100.00%''
     \<and> duration (rep_summary rep) = 0)
   \<and> (\<exists>rep d'. generateReport sample_db never_completed 5000 ''t1'' [] ''sess-1'' = Inr (rep, d')
     \<and> issuesFound (rep_summary rep) = 0
     \<and> successRate (rep_performanceMetrics rep) = 0
     \<and> successRateText (rep_summary rep) = ''0.00%''
     \<and> duration (rep_summary rep) = 0)"
proof -
  have row: "tests sample_db ''t1'' =
      Some \<lparr>url = ''https://example.com'', status = Running, created_at = 10,
            started_at = Some 11, completed_at = None,
            browserbase_session_id = Some ''sess-1'', error = None\<rparr>"
    by (simp add: sample_db_def)
  have a: "\<exists>rep d'. generateReport sample_db never_completed 5000 ''t1'' sample_logs ''sess-1'' = Inr (rep, d')
     \<and> issuesFound (rep_summary rep) = 1
     \<and> successRate (rep_performanceMetrics rep) = 2345624805922133 / 35184372088832
     \<and> successRateText (rep_summary rep) = ''66.67%''
     \<and> duration (rep_summary rep) = 3000"
  proof -
    obtain rep d' where h: "generateReport sample_db never_completed 5000 ''t1'' sample_logs ''sess-1'' = Inr (rep, d')"
      using generateReport_succeeds [OF row] by blast
    note m = generateReport_metrics [OF h]
    have 1: "issuesFound (rep_summary rep) = 1"
      using m by (simp add: sample_logs_def)
    have 2: "successRate (rep_performanceMetrics rep) = 2345624805922133 / 35184372088832"
      using m by (simp add: sample_logs_def two_thirds_percent)
    have 3: "successRateText (rep_summary rep) = ''66.67%''"
      using m by (simp only: 2 toFixed2_sample) simp
    have 4: "duration (rep_summary rep) = 3000"
      using m by (simp add: sample_logs_def)
    from h 1 2 3 4 show ?thesis by blast
  qed
  have b: "\<exists>rep d'. generateReport sample_db never_completed 5000 ''t1'' (take 1 sample_logs) ''sess-1'' = Inr (rep, d')
     \<and> issuesFound (rep_summary rep) = 0
     \<and> successRate (rep_performanceMetrics rep) = 100
     \<and> successRateText (rep_summary rep) = ''100.00%''
     \<and> duration (rep_summary rep) = 0"
  proof -
    obtain rep d' where h: "generateReport sample_db never_completed 5000 ''t1'' (take 1 sample_logs) ''sess-1'' = Inr (rep, d')"
      using generateReport_succeeds [OF row] by blast
    note m = generateReport_metrics [OF h]
    have 1: "issuesFound (rep_summary rep) = 0"
      using m by (simp add: sample_logs_def)
    have 2: "successRate (rep_performanceMetrics rep) = 100"
      using m by (simp add: sample_logs_def)
    have 3: "successRateText (rep_summary rep) = ''100.00%''"
      using m by (simp only: 2 toFixed2_100) simp
    have 4: "duration (rep_summary rep) = 0"
      using m by (simp add: sample_logs_def)
    from h 1 2 3 4 show ?thesis by blast
  qed
  have c: "\<exists>rep d'. generateReport sample_db never_completed 5000 ''t1'' [] ''sess-1'' = Inr (rep, d')
     \<and> issuesFound (rep_summary rep) = 0
     \<and> successRate (rep_performanceMetrics rep) = 0
     \<and> successRateText (rep_summary rep) = ''0.00%''
     \<and> duration (rep_summary rep) = 0"
  proof -
    obtain rep d' where h: "generateReport sample_db never_completed 5000 ''t1'' [] ''sess-1'' = Inr (rep, d')"
      using generateReport_succeeds [OF row] by blast
    note m = generateReport_metrics [OF h]
    have 1: "issuesFound (rep_summary rep) = 0"
      using m by simp
    have 2: "successRate (rep_performanceMetrics rep) = 0"
      using m by simp
    have 3: "successRateText (rep_summary rep) = ''0.00%''"
      using m by (simp only: 2 toFixed2_0) simp
    have 4: "duration (rep_summary rep) = 0"
      using m by simp
    from h 1 2 3 4 show ?thesis by blast
  qed
  from a b c show ?thesis by blast
qed

text \<open>
  Claim C3 as stated fails on its success rate: of the three sample entries two
  succeeded, and the report's \<open>successRate\<close> is the double 66.66666666666666
  (2345624805922133 / 2^45), which is neither 100 times 2 divided by 3 nor the double
  nearest to that number, 66.66666666666667; the other figures are as claimed.
\<close>

theorem successRate_rounded_twice_counterexample:
  "\<not> isl (generateReport sample_db never_completed 5000 ''t1'' sample_logs ''sess-1'')
   \<and> length (filter (\<lambda>l. res_success (log_result l)) sample_logs) = 2
   \<and> length sample_logs = 3
   \<and> successRate (rep_performanceMetrics
        (fst (projr (generateReport sample_db never_completed 5000 ''t1'' sample_logs ''sess-1''))))
       = 2345624805922133 / 35184372088832
   \<and> successRate (rep_performanceMetrics
        (fst (projr (generateReport sample_db never_completed 5000 ''t1'' sample_logs ''sess-1''))))
       \<noteq> 100 * 2 / 3
   \<and> successRate (rep_performanceMetrics
        (fst (projr (generateReport sample_db never_completed 5000 ''t1'' sample_logs ''sess-1''))))
       \<noteq> double_div (100 * 2) 3"
proof -
  have row: "tests sample_db ''t1'' =
      Some \<lparr>url = ''https://example.com'', status = Running, created_at = 10,
            started_at = Some 11, completed_at = None,
            browserbase_session_id = Some ''sess-1'', error = None\<rparr>"
    by (simp add: sample_db_def)
  obtain rep d' where h: "generateReport sample_db never_completed 5000 ''t1'' sample_logs ''sess-1'' = Inr (rep, d')"
    using generateReport_succeeds [OF row] by blast
  have n: "length (filter (\<lambda>l. res_success (log_result l)) sample_logs) = 2" "length sample_logs = 3"
    by (simp_all add: sample_logs_def)
  from generateReport_Inr [OF h]
  have v: "successRate (rep_performanceMetrics rep) = 2345624805922133 / 35184372088832"
    by (simp add: performanceMetrics_of_def n two_thirds_percent)
  have ne: "(2345624805922133 / 35184372088832 :: rat) \<noteq> 100 * 2 / 3"
    by simp
  have ne2: "(2345624805922133 / 35184372088832 :: rat) \<noteq> double_div (100 * 2) 3"
    unfolding nearest_to_two_thirds_percent by simp
  from n v ne ne2 show ?thesis
    by (simp add: h)
qed

subsection \<open>The report builder called twice\<close>

text \<open>
  Claim C9. When \<open>generateReport\<close> has returned a report, a second call with the same
  test id, the same action-log list, the same session id and the same answers of the
  recording-URL fetch returns a report again, and its \<open>summary\<close>, \<open>navigationPath\<close>
  and \<open>issues\<close> sections equal those of the first report. The second call runs on the
  store as the first call left it (one more report row) and may read another clock
  value: the three sections depend on neither.
\<close>

theorem generateReport_deterministic:
  assumes "generateReport d retrieve now1 testId logs sid = Inr (rep1, d1)"
  shows "\<exists>rep2 d2. generateReport d1 retrieve now2 testId logs sid = Inr (rep2, d2)
           \<and> rep_summary rep2 = rep_summary rep1
           \<and> rep_navigationPath rep2 = rep_navigationPath rep1
           \<and> rep_issues rep2 = rep_issues rep1"
proof -
  from assms have row: "tests d1 testId \<noteq> None"
    by (auto simp: generateReport_def Let_def createReport_def split: option.splits sum.splits)
  then obtain rep2 d2 where h2: "generateReport d1 retrieve now2 testId logs sid = Inr (rep2, d2)"
    using generateReport_succeeds by fastforce
  from generateReport_Inr [OF assms] generateReport_Inr [OF h2]
  have "rep_summary rep2 = rep_summary rep1 \<and> rep_navigationPath rep2 = rep_navigationPath rep1
        \<and> rep_issues rep2 = rep_issues rep1"
    by simp
  with h2 show ?thesis by blast
qed

theorem generateReport_deterministic_witness:
  "\<exists>rep1 d1 rep2 d2.
      generateReport sample_db never_completed 5000 ''t1'' sample_logs ''sess-1'' = Inr (rep1, d1)
    \<and> generateReport d1 never_completed 9000 ''t1'' sample_logs ''sess-1'' = Inr (rep2, d2)
    \<and> rep_summary rep2 = rep_summary rep1
    \<and> rep_navigationPath rep2 = rep_navigationPath rep1
    \<and> rep_issues rep2 = rep_issues rep1"
proof -
  obtain rep1 d1 where h: "generateReport sample_db never_completed 5000 ''t1'' sample_logs ''sess-1'' = Inr (rep1, d1)"
    using sample_generateReport by blast
  from generateReport_deterministic [OF h, of 9000] h show ?thesis by blast
qed

subsection \<open>The recording endpoint\<close>

text \<open>
  Claim C7, as amended. For a run that exists and has a session id, the recording
  endpoint answers 200 with the URL \<open>https://browserbase.com/sessions/<session id>\<close>
  whatever the provider answers to the polls, also when no poll finds the session
  completed: \<open>getRecordingUrl\<close> returns that URL after its last attempt. The endpoint
  answers 404 only for an unknown run (and 400 for a run without a session id); its
  answer "Recording not available" is never given.
\<close>

theorem get_recording_always_url:
  "get_recording s retrieve testId =
     (case getTest (database s) testId of
        None \<Rightarrow> (404, ErrorBody ''Test not found'' (''No test found with ID: '' @ testId))
      | Some test \<Rightarrow>
          if \<not> truthy (browserbase_session_id test) then
            (400, ErrorBody ''No session ID'' ''Test does not have a Browserbase session ID'')
          else
            (200, RecordingBody testId (the (browserbase_session_id test))
                    (''https://browserbase.com/sessions/'' @ the (browserbase_session_id test))))"
  by (simp add: get_recording_def getRecordingUrl_always truthy_def Let_def split: option.splits)

theorem get_recording_always_url_witness:
  "get_recording sample_state always_throws ''t1'' =
     (200, RecordingBody ''t1'' ''sess-1'' ''https://browserbase.com/sessions/sess-1'')"
  using get_recording_always_url [of sample_state always_throws "''t1''"]
  by (simp add: sample_state_def sample_db_def getTest_def truthy_def)

text \<open>
  Claim C7 as stated fails: the provider reports the session of run \<open>t1\<close> as still
  running at each of the five polls, and the endpoint answers 200 with a URL, not 404.
\<close>

theorem recording_404_counterexample:
  "\<not> session_completed (never_completed 1) \<and> \<not> session_completed (never_completed 2)
   \<and> \<not> session_completed (never_completed 3) \<and> \<not> session_completed (never_completed 4)
   \<and> \<not> session_completed (never_completed 5)
   \<and> fst (get_recording sample_state never_completed ''t1'') \<noteq> 404
   \<and> get_recording sample_state never_completed ''t1'' =
       (200, RecordingBody ''t1'' ''sess-1'' ''https://browserbase.com/sessions/sess-1'')"
  by (simp add: get_recording_def getRecordingUrl_def getRecordingUrl_from.simps
        session_completed_def never_completed_def truthy_def sample_state_def sample_db_def
        getTest_def Let_def)

subsection \<open>What a manual stop writes\<close>

text \<open>
  Claim C10. \<open>updateTestStatus\<close> called with \<open>'stopped'\<close> replaces the status of the
  run's row and nothing else: \<open>completed_at\<close>, \<open>error\<close> and every other column keep
  their values, every other row and the reports are untouched, and the result does
  not depend on the error argument, so the reason passed by the stop endpoint is not
  stored. Any status other than \<open>'completed'\<close> and \<open>'failed'\<close> leaves \<open>completed_at\<close>
  and \<open>error\<close> as they were. The stop endpoint on a running run writes exactly this.
\<close>

theorem updateTestStatus_stopped_frame:
  assumes "tests (database s) testId = Some r"
  shows "updateTestStatus (database s) testId Stopped err now =
           (database s)\<lparr>tests := (tests (database s))(testId \<mapsto> r\<lparr>status := Stopped\<rparr>)\<rparr>
       \<and> (st \<noteq> Completed \<and> st \<noteq> Failed \<longrightarrow>
            (\<exists>r'. tests (updateTestStatus (database s) testId st err now) testId = Some r'
                  \<and> completed_at r' = completed_at r \<and> error r' = error r))
       \<and> (status r = Running \<longrightarrow>
            database (snd (stop s testId now)) =
              (database s)\<lparr>tests := (tests (database s))(testId \<mapsto> r\<lparr>status := Stopped\<rparr>)\<rparr>)"
  using assms by (simp add: updateTestStatus_def stop_def getTest_def)

theorem updateTestStatus_stopped_frame_witness:
  "tests (database (snd (stop sample_state ''t1'' 20))) ''t1'' =
     Some \<lparr>url = ''https://example.com'', status = Stopped, created_at = 10,
           started_at = Some 11, completed_at = None,
           browserbase_session_id = Some ''sess-1'', error = None\<rparr>"
proof -
  have row: "tests (database sample_state) ''t1'' =
      Some \<lparr>url = ''https://example.com'', status = Running, created_at = 10,
            started_at = Some 11, completed_at = None,
            browserbase_session_id = Some ''sess-1'', error = None\<rparr>"
    by (simp add: sample_state_def sample_db_def)
  from updateTestStatus_stopped_frame [OF row, of None 20 Stopped] show ?thesis
    by simp
qed

subsection \<open>Helper lemmas: store, drain loop and background job\<close>

lemma processQueue_loop_blocked:
  "activeSessions s \<noteq> [] \<Longrightarrow> processQueue_loop created now i s = s"
  by (subst processQueue_loop.simps) (simp add: Suc_le_eq split: list.splits)

lemma processQueue_loop_empty:
  "testQueue s = [] \<Longrightarrow> processQueue_loop created now i s = s"
  by (subst processQueue_loop.simps) simp

lemma processQueue_noop:
  "testQueue s = [] \<or> activeSessions s \<noteq> [] \<Longrightarrow> processQueue created now s = s"
  by (auto simp: processQueue_def processQueue_loop_blocked processQueue_loop_empty)

lemma updateTestStatus_other:
  "t \<noteq> testId \<Longrightarrow> tests (updateTestStatus d testId st err now) t = tests d t"
  by (simp add: updateTestStatus_def split: option.splits)

lemma updateTestStatus_reports:
  "reports (updateTestStatus d testId st err now) = reports d"
  by (simp add: updateTestStatus_def split: option.splits)

lemma updateTestStatus_status:
  "tests d testId = Some r \<Longrightarrow>
     map_option status (tests (updateTestStatus d testId st err now) testId) = Some st"
  by (simp add: updateTestStatus_def)

lemma generateReport_store:
  "generateReport d retrieve now testId logs sid = Inr (rep, d') \<Longrightarrow>
     tests d' = tests d \<and> (\<exists>row. reports d' = reports d @ [row] \<and> rr_test_id row = testId \<and> rr_data row = rep)"
  by (auto simp: generateReport_def Let_def createReport_def split: option.splits sum.splits)

lemma getReport_found:
  "reports d = rs @ [row] \<Longrightarrow> rr_test_id row = testId \<Longrightarrow> getReport d testId \<noteq> None"
  by (simp add: getReport_def split: list.splits)

lemma runTestInBackground_finish_state:
  assumes row: "tests (database s) testId = Some r"
    and noop: "testQueue s = [] \<or> AList.delete testId (activeSessions s) \<noteq> []"
  shows "\<exists>rep d. generateReport (database s) retrieve now testId logs sid = Inr (rep, d)
           \<and> runTestInBackground_finish s testId sid logs retrieve now created =
               s\<lparr>database := updateTestStatus d testId Completed None now,
                 activeSessions := AList.delete testId (activeSessions s),
                 jobs := filter (\<lambda>j. fst j \<noteq> testId) (jobs s)\<rparr>"
proof -
  obtain rep d where g: "generateReport (database s) retrieve now testId logs sid = Inr (rep, d)"
    using generateReport_succeeds [OF row] by blast
  have "processQueue created now
          (s\<lparr>database := updateTestStatus d testId Completed None now,
             activeSessions := AList.delete testId (activeSessions s),
             jobs := filter (\<lambda>j. fst j \<noteq> testId) (jobs s)\<rparr>)
        = s\<lparr>database := updateTestStatus d testId Completed None now,
             activeSessions := AList.delete testId (activeSessions s),
             jobs := filter (\<lambda>j. fst j \<noteq> testId) (jobs s)\<rparr>"
    using noop by (intro processQueue_noop) simp
  with g show ?thesis
    by (simp add: runTestInBackground_finish_def)
qed

lemma runTestInBackground_failed_state:
  assumes noop: "testQueue s = [] \<or> AList.delete testId (activeSessions s) \<noteq> []"
  shows "runTestInBackground_failed s testId msg now created =
               s\<lparr>database := updateTestStatus (database s) testId Failed (Some msg) now,
                 activeSessions := AList.delete testId (activeSessions s),
                 jobs := filter (\<lambda>j. fst j \<noteq> testId) (jobs s)\<rparr>"
  unfolding runTestInBackground_failed_def
  using noop by (intro processQueue_noop) simp

lemma stopped_run_overwritten:
  assumes row: "tests (database s) testId = Some r"
    and job: "map_of (jobs s) testId = Some sid"
    and noop: "testQueue s = [] \<or> AList.delete testId (activeSessions s) \<noteq> []"
  shows "status_of (step s (JobFinishes testId logs retrieve now created)) testId = Some Completed"
    and "status_of (step s (JobFails testId msg now created)) testId = Some Failed"
    and "fst (get_report (step s (JobFinishes testId logs retrieve now created)) testId) = 200"
proof -
  obtain rep d where g: "generateReport (database s) retrieve now testId logs sid = Inr (rep, d)"
    and f: "runTestInBackground_finish s testId sid logs retrieve now created =
               s\<lparr>database := updateTestStatus d testId Completed None now,
                 activeSessions := AList.delete testId (activeSessions s),
                 jobs := filter (\<lambda>j. fst j \<noteq> testId) (jobs s)\<rparr>"
    using runTestInBackground_finish_state [OF row noop] by blast
  from generateReport_store [OF g] obtain rrow where
    td: "tests d = tests (database s)" and rd: "reports d = reports (database s) @ [rrow]"
    and rid: "rr_test_id rrow = testId"
    by blast
  have rowd: "tests d testId = Some r" using row td by simp
  show c: "status_of (step s (JobFinishes testId logs retrieve now created)) testId = Some Completed"
    using updateTestStatus_status [OF rowd, of Completed None now]
    by (simp add: step_def job f status_of_def getTest_def)
  show "status_of (step s (JobFails testId msg now created)) testId = Some Failed"
    using updateTestStatus_status [OF row, of Failed "Some msg" now]
    by (simp add: step_def job runTestInBackground_failed_state [OF noop] status_of_def getTest_def)
  have "getReport (updateTestStatus d testId Completed None now) testId \<noteq> None"
    by (rule getReport_found [where rs = "reports (database s)" and row = rrow])
       (simp_all add: updateTestStatus_reports rd rid)
  then show "fst (get_report (step s (JobFinishes testId logs retrieve now created)) testId) = 200"
    using c
    by (auto simp: get_report_def step_def job f status_of_def getTest_def getTestReport_def
             split: option.splits)
qed

lemma stop_scenario_state:
  "run init_state stop_scenario =
     \<lparr>database = \<lparr>tests = [''A'' \<mapsto> \<lparr>url = ''https://example.com'', status = Stopped, created_at = 0,
                      started_at = Some 0, completed_at = None,
                      browserbase_session_id = Some ''sess-1'', error = None\<rparr>], reports = []\<rparr>,
      activeSessions = [], testQueue = [], isProcessingQueue = False, jobs = [(''A'', ''sess-1'')]\<rparr>"
  by (simp add: run_def stop_scenario_def step_def start_def start_admitted_def stop_def init_state_def truthy_def
        createSession_def createTest_def sample_session_def runTestInBackground_begin_def
        updateTestStatus_def getTest_def or_else_def datetime_now_def)

lemma three_starts_state:
  "run init_state three_starts =
     \<lparr>database = \<lparr>tests =
        [''A'' \<mapsto> \<lparr>url = ''https://example.com'', status = Running, created_at = 0,
                      started_at = Some 0, completed_at = None,
                      browserbase_session_id = Some ''sess-1'', error = None\<rparr>,
         ''B'' \<mapsto> \<lparr>url = ''https://example.org'', status = Queued, created_at = 0,
                      started_at = None, completed_at = None,
                      browserbase_session_id = None, error = None\<rparr>,
         ''C'' \<mapsto> \<lparr>url = ''https://example.net'', status = Queued, created_at = 0,
                      started_at = None, completed_at = None,
                      browserbase_session_id = None, error = None\<rparr>], reports = []\<rparr>,
      activeSessions =
        [(''A'', \<lparr>as_status = Running, as_progress = [], as_queuePosition = None,
                  as_queuedAt = None, as_startedAt = Some 1\<rparr>),
         (''B'', \<lparr>as_status = Queued, as_progress = [], as_queuePosition = Some 1,
                  as_queuedAt = Some 2, as_startedAt = None\<rparr>),
         (''C'', \<lparr>as_status = Queued, as_progress = [], as_queuePosition = Some 2,
                  as_queuedAt = Some 3, as_startedAt = None\<rparr>)],
      testQueue = [\<lparr>qt_testId = ''B'', qt_url = ''https://example.org'', qt_queuedAt = 2\<rparr>,
                   \<lparr>qt_testId = ''C'', qt_url = ''https://example.net'', qt_queuedAt = 3\<rparr>],
      isProcessingQueue = False, jobs = [(''A'', ''sess-1'')]\<rparr>"
  by (simp add: run_def three_starts_def step_def start_def start_admitted_def init_state_def truthy_def
        createSession_def createTest_def sample_session_def runTestInBackground_begin_def
        updateTestStatus_def getTest_def or_else_def Let_def datetime_now_def)

subsection \<open>The queue after a run finishes\<close>

text \<open>
  Claim C1, evaluated on the code. Run \<open>A\<close> is started, \<open>B\<close> and \<open>C\<close> are queued at
  positions 1 and 2, and only \<open>A\<close> is running. When the job of \<open>A\<close> finishes the queue
  does not drain: \<open>processQueue\<close> stops at its capacity check, because the entries
  that \<open>POST /start\<close> stored in \<open>activeSessions\<close> for the queued runs still count
  towards \<open>activeSessions.size\<close>. \<open>B\<close> and \<open>C\<close> stay queued, nothing is running and no
  job is pending.
\<close>

theorem queue_never_drains:
  "status_of (run init_state three_starts) ''A'' = Some Running
   \<and> status_of (run init_state three_starts) ''B'' = Some Queued
   \<and> status_of (run init_state three_starts) ''C'' = Some Queued
   \<and> map_option as_queuePosition (map_of (activeSessions (run init_state three_starts)) ''B'') = Some (Some 1)
   \<and> map_option as_queuePosition (map_of (activeSessions (run init_state three_starts)) ''C'') = Some (Some 2)
   \<and> status_of (step (run init_state three_starts)
         (JobFinishes ''A'' sample_logs never_completed 9 sessions_available)) ''A'' = Some Completed
   \<and> status_of (step (run init_state three_starts)
         (JobFinishes ''A'' sample_logs never_completed 9 sessions_available)) ''B'' = Some Queued
   \<and> status_of (step (run init_state three_starts)
         (JobFinishes ''A'' sample_logs never_completed 9 sessions_available)) ''C'' = Some Queued
   \<and> map qt_testId (testQueue (step (run init_state three_starts)
         (JobFinishes ''A'' sample_logs never_completed 9 sessions_available))) = [''B'', ''C'']
   \<and> jobs (step (run init_state three_starts)
         (JobFinishes ''A'' sample_logs never_completed 9 sessions_available)) = []"
proof -
  let ?s = "run init_state three_starts"
  let ?s' = "step ?s (JobFinishes ''A'' sample_logs never_completed 9 sessions_available)"
  have row: "tests (database ?s) ''A'' =
      Some \<lparr>url = ''https://example.com'', status = Running, created_at = 0,
            started_at = Some 0, completed_at = None,
            browserbase_session_id = Some ''sess-1'', error = None\<rparr>"
    by (simp add: three_starts_state)
  have job: "map_of (jobs ?s) ''A'' = Some ''sess-1''"
    by (simp add: three_starts_state)
  have noop: "testQueue ?s = [] \<or> AList.delete ''A'' (activeSessions ?s) \<noteq> []"
    by (simp add: three_starts_state AList.delete_eq)
  obtain rep d where g: "generateReport (database ?s) never_completed 9 ''A'' sample_logs ''sess-1'' = Inr (rep, d)"
    and f: "runTestInBackground_finish ?s ''A'' ''sess-1'' sample_logs never_completed 9 sessions_available =
               ?s\<lparr>database := updateTestStatus d ''A'' Completed None 9,
                 activeSessions := AList.delete ''A'' (activeSessions ?s),
                 jobs := filter (\<lambda>j. fst j \<noteq> ''A'') (jobs ?s)\<rparr>"
    using runTestInBackground_finish_state [OF row noop] by blast
  have s': "?s' = ?s\<lparr>database := updateTestStatus d ''A'' Completed None 9,
                 activeSessions := AList.delete ''A'' (activeSessions ?s),
                 jobs := filter (\<lambda>j. fst j \<noteq> ''A'') (jobs ?s)\<rparr>"
    by (simp add: step_def job f)
  have td: "tests d = tests (database ?s)"
    using generateReport_store [OF g] by blast
  have a: "status_of ?s' ''A'' = Some Completed"
    using stopped_run_overwritten(1) [OF row job noop] .
  have b: "status_of ?s' ''B'' = Some Queued"
    unfolding s' by (simp add: status_of_def getTest_def updateTestStatus_other td) (simp add: three_starts_state)
  have c: "status_of ?s' ''C'' = Some Queued"
    unfolding s' by (simp add: status_of_def getTest_def updateTestStatus_other td) (simp add: three_starts_state)
  have q: "map qt_testId (testQueue ?s') = [''B'', ''C'']"
    unfolding s' by (simp add: three_starts_state)
  have j: "jobs ?s' = []"
    unfolding s' by (simp add: three_starts_state)
  have pre: "status_of ?s ''A'' = Some Running \<and> status_of ?s ''B'' = Some Queued
     \<and> status_of ?s ''C'' = Some Queued
     \<and> map_option as_queuePosition (map_of (activeSessions ?s) ''B'') = Some (Some 1)
     \<and> map_option as_queuePosition (map_of (activeSessions ?s) ''C'') = Some (Some 2)"
    by (simp add: three_starts_state status_of_def getTest_def)
  from pre a b c q j show ?thesis by blast
qed

subsection \<open>A stopped run whose job goes on\<close>

text \<open>
  Claim C2, evaluated on the code. Run \<open>A\<close> is started and then stopped: its status
  is \<open>'stopped'\<close> while its background job is still pending, since the stop endpoint
  does not cancel the job. When the job reaches its end it writes \<open>'completed'\<close>, and
  when it fails it writes \<open>'failed'\<close>: the terminal status \<open>'stopped'\<close> is overwritten.
\<close>

theorem stopped_then_completed:
  "status_of (run init_state stop_scenario) ''A'' = Some Stopped
   \<and> map_of (jobs (run init_state stop_scenario)) ''A'' = Some ''sess-1''
   \<and> status_of (step (run init_state stop_scenario)
         (JobFinishes ''A'' sample_logs never_completed 3 no_sessions)) ''A'' = Some Completed
   \<and> status_of (step (run init_state stop_scenario)
         (JobFails ''A'' ''Target page, context or browser has been closed'' 3 no_sessions)) ''A'' = Some Failed"
proof -
  let ?s = "run init_state stop_scenario"
  have row: "tests (database ?s) ''A'' =
      Some \<lparr>url = ''https://example.com'', status = Stopped, created_at = 0,
            started_at = Some 0, completed_at = None,
            browserbase_session_id = Some ''sess-1'', error = None\<rparr>"
    by (simp add: stop_scenario_state)
  have job: "map_of (jobs ?s) ''A'' = Some ''sess-1''"
    by (simp add: stop_scenario_state)
  have noop: "testQueue ?s = [] \<or> AList.delete ''A'' (activeSessions ?s) \<noteq> []"
    by (simp add: stop_scenario_state)
  have st: "status_of ?s ''A'' = Some Stopped"
    by (simp add: status_of_def getTest_def row)
  from st job stopped_run_overwritten(1,2) [OF row job noop] show ?thesis
    by blast
qed

text \<open>
  Claim C6, evaluated on the code. The stop request on the running run \<open>A\<close> answers
  200, and a report request right after it answers 400. The job of \<open>A\<close> then finishes:
  it stores a report and marks the run \<open>'completed'\<close>, and the next report request for
  the stopped run answers 200.
\<close>

theorem report_served_after_stop:
  "fst (stop (run init_state [Start ''A'' (Some ''https://example.com'') True 1 (Inr sample_session)]) ''A'' 2)
     = (200, StoppedBody ''A'')
   \<and> fst (get_report (run init_state stop_scenario) ''A'') = 400
   \<and> fst (get_report (step (run init_state stop_scenario)
         (JobFinishes ''A'' sample_logs never_completed 3 no_sessions)) ''A'') = 200"
proof -
  let ?s = "run init_state stop_scenario"
  have row: "tests (database ?s) ''A'' =
      Some \<lparr>url = ''https://example.com'', status = Stopped, created_at = 0,
            started_at = Some 0, completed_at = None,
            browserbase_session_id = Some ''sess-1'', error = None\<rparr>"
    by (simp add: stop_scenario_state)
  have job: "map_of (jobs ?s) ''A'' = Some ''sess-1''"
    by (simp add: stop_scenario_state)
  have noop: "testQueue ?s = [] \<or> AList.delete ''A'' (activeSessions ?s) \<noteq> []"
    by (simp add: stop_scenario_state)
  have 1: "fst (stop (run init_state [Start ''A'' (Some ''https://example.com'') True 1 (Inr sample_session)]) ''A'' 2)
     = (200, StoppedBody ''A'')"
    by (simp add: run_def step_def start_def start_admitted_def stop_def init_state_def truthy_def
        createSession_def createTest_def sample_session_def runTestInBackground_begin_def
        updateTestStatus_def getTest_def or_else_def)
  have 2: "fst (get_report ?s ''A'') = 400"
    by (simp add: get_report_def getTest_def row)
  from 1 2 stopped_run_overwritten(3) [OF row job noop] show ?thesis
    by blast
qed

subsection \<open>A session that cannot be created\<close>

text \<open>
  Claim C8, as amended. When session creation fails for a start request that is
  admitted at once (a valid URL, no entry in \<open>activeSessions\<close>), the start endpoint
  answers 500 with the provider's message, prefixed by \<open>createSession\<close>, and leaves
  the state as it was: no run is recorded, the stored status of the request's id is
  what it was before, and for a fresh id the status endpoint answers 404.
\<close>

theorem session_failure_handling:
  "truthy u \<and> url_ok \<and> activeSessions s = [] \<longrightarrow>
     start s testId u url_ok now (Inl msg) =
       ((500, ErrorBody ''Failed to start test'' (''Failed to create Browserbase session: '' @ msg)), s)
     \<and> status_of (snd (start s testId u url_ok now (Inl msg))) testId = status_of s testId
     \<and> (tests (database s) testId = None \<longrightarrow>
          get_status (snd (start s testId u url_ok now (Inl msg))) testId =
            (404, ErrorBody ''Test not found'' (''No test found with ID: '' @ testId)))"
  by (simp add: start_def start_admitted_def createSession_def get_status_def getTest_def)

theorem session_failure_handling_witness:
  "start init_state ''A'' (Some ''https://example.com'') True 1 (Inl ''quota exceeded'') =
     ((500, ErrorBody ''Failed to start test'' ''Failed to create Browserbase session: quota exceeded''),
      init_state)
   \<and> get_status (snd (start init_state ''A'' (Some ''https://example.com'') True 1 (Inl ''quota exceeded''))) ''A'' =
       (404, ErrorBody ''Test not found'' ''No test found with ID: A'')"
  using session_failure_handling [where u = "Some ''https://example.com''" and url_ok = True
          and s = init_state and testId = "''A''" and now = 1 and msg = "''quota exceeded''"]
  by (simp add: truthy_def init_state_def get_status_def getTest_def)

text \<open>
  Claim C8 as stated fails for a run admitted at once: the provider refuses the
  session, the start endpoint answers 500, and afterwards there is no run \<open>A\<close> with
  status \<open>'failed'\<close>: the status endpoint answers 404.
\<close>

theorem failed_start_leaves_no_run:
  "fst (start init_state ''A'' (Some ''https://example.com'') True 1 (Inl ''quota exceeded'')) =
     (500, ErrorBody ''Failed to start test'' ''Failed to create Browserbase session: quota exceeded'')
   \<and> status_of (snd (start init_state ''A'' (Some ''https://example.com'') True 1 (Inl ''quota exceeded''))) ''A''
       \<noteq> Some Failed
   \<and> fst (get_status (snd (start init_state ''A'' (Some ''https://example.com'') True 1 (Inl ''quota exceeded''))) ''A'')
       = 404"
  by (simp add: start_def start_admitted_def createSession_def truthy_def init_state_def status_of_def getTest_def
        get_status_def)

subsection \<open>The queue invariant holds in every reachable state\<close>

lemma dom_delete: "fst ` set (AList.delete k al) = fst ` set al - {k}"
  by (auto simp: AList.delete_eq)

lemma queue_inv_init: "queue_inv init_state"
  by (simp add: queue_inv_def init_state_def status_of_def getTest_def)

lemma queue_inv_start:
  assumes "queue_inv s"
  shows "queue_inv (snd (start s testId u url_ok now created))"
proof -
  consider (bad) "\<not> truthy u \<or> \<not> url_ok"
    | (queue) "truthy u" "url_ok" "length (activeSessions s) \<ge> 1"
    | (direct) "truthy u" "url_ok" "activeSessions s = []"
    by (cases "activeSessions s") auto
  then show ?thesis
  proof cases
    case bad
    then show ?thesis using assms by (auto simp: start_def start_admitted_def)
  next
    case queue
    show ?thesis
    proof (cases "tests (database s) testId")
      case (Some r)
      then show ?thesis using assms queue by (simp add: start_def start_admitted_def createTest_def)
    next
      case None
      then show ?thesis using assms queue
        by (auto simp: start_def start_admitted_def createTest_def Let_def queue_inv_def status_of_def getTest_def
              updateTestStatus_def dom_update)
    qed
  next
    case direct
    from assms direct have noq: "testQueue s = []"
      by (cases "testQueue s") (auto simp: queue_inv_def)
    show ?thesis
    proof (cases "createSession created")
      case (Inl msg)
      then show ?thesis using assms direct by (simp add: start_def start_admitted_def)
    next
      case (Inr session)
      show ?thesis
      proof (cases "tests (database s) testId")
        case (Some r)
        then show ?thesis using assms direct Inr by (simp add: start_def start_admitted_def createTest_def)
      next
        case None
        then show ?thesis using assms direct Inr noq
          by (auto simp: start_def start_admitted_def createTest_def queue_inv_def status_of_def getTest_def
                updateTestStatus_def runTestInBackground_begin_def dom_update)
      qed
    qed
  qed
qed

lemma queue_inv_stop:
  assumes "queue_inv s"
  shows "queue_inv (snd (stop s testId now))"
  using assms
  by (auto simp: stop_def queue_inv_def status_of_def getTest_def updateTestStatus_def dom_delete
           split: option.splits)

lemma queue_inv_loaded:
  assumes "queue_inv s"
  shows "queue_inv (runTestInBackground_loaded s testId u now)"
  using assms
  by (auto simp: runTestInBackground_loaded_def queue_inv_def status_of_def getTest_def dom_update
           split: option.splits)

lemma queue_inv_job_row:
  assumes inv: "queue_inv s" and job: "map_of (jobs s) testId = Some sid"
  shows "\<exists>r. tests (database s) testId = Some r"
    and "testId \<notin> qt_testId ` set (testQueue s)"
    and "testQueue s = [] \<or> AList.delete testId (activeSessions s) \<noteq> []"
proof -
  from job have mem: "(testId, sid) \<in> set (jobs s)"
    by (rule map_of_SomeD)
  with inv have st: "status_of s testId = Some Running \<or> status_of s testId = Some Stopped"
    by (auto simp: queue_inv_def)
  then show "\<exists>r. tests (database s) testId = Some r"
    by (auto simp: status_of_def getTest_def)
  from st inv show nq: "testId \<notin> qt_testId ` set (testQueue s)"
    by (auto simp: queue_inv_def)
  show "testQueue s = [] \<or> AList.delete testId (activeSessions s) \<noteq> []"
  proof (cases "testQueue s")
    case Nil
    then show ?thesis by simp
  next
    case (Cons q rest)
    with inv have "qt_testId q \<in> fst ` set (activeSessions s)"
      by (simp add: queue_inv_def)
    moreover from nq Cons have "qt_testId q \<noteq> testId"
      by auto
    ultimately have "qt_testId q \<in> fst ` set (AList.delete testId (activeSessions s))"
      by (simp add: dom_delete)
    then show ?thesis by auto
  qed
qed

lemma queue_inv_job_end:
  assumes inv: "queue_inv s" and td: "tests d = tests (database s)"
    and st: "st = Completed \<or> st = Failed"
    and nq: "testId \<notin> qt_testId ` set (testQueue s)"
  shows "queue_inv (s\<lparr>database := updateTestStatus d testId st err now,
                      activeSessions := AList.delete testId (activeSessions s),
                      jobs := filter (\<lambda>j. fst j \<noteq> testId) (jobs s)\<rparr>)"
  using inv td st nq
  by (auto simp: queue_inv_def status_of_def getTest_def updateTestStatus_def dom_delete
           split: option.splits)

lemma queue_inv_finish:
  assumes inv: "queue_inv s" and job: "map_of (jobs s) testId = Some sid"
  shows "queue_inv (runTestInBackground_finish s testId sid logs retrieve now created)"
proof -
  from queue_inv_job_row [OF inv job] obtain r where row: "tests (database s) testId = Some r"
    and nq: "testId \<notin> qt_testId ` set (testQueue s)"
    and noop: "testQueue s = [] \<or> AList.delete testId (activeSessions s) \<noteq> []"
    by blast
  from runTestInBackground_finish_state [OF row noop]
  obtain rep d where g: "generateReport (database s) retrieve now testId logs sid = Inr (rep, d)"
    and f: "runTestInBackground_finish s testId sid logs retrieve now created =
               s\<lparr>database := updateTestStatus d testId Completed None now,
                 activeSessions := AList.delete testId (activeSessions s),
                 jobs := filter (\<lambda>j. fst j \<noteq> testId) (jobs s)\<rparr>"
    by blast
  from generateReport_store [OF g] have td: "tests d = tests (database s)"
    by blast
  show ?thesis
    unfolding f by (rule queue_inv_job_end [OF inv td _ nq]) simp
qed

lemma queue_inv_failed:
  assumes inv: "queue_inv s" and job: "map_of (jobs s) testId = Some sid"
  shows "queue_inv (runTestInBackground_failed s testId msg now created)"
proof -
  from queue_inv_job_row [OF inv job]
  have nq: "testId \<notin> qt_testId ` set (testQueue s)"
    and noop: "testQueue s = [] \<or> AList.delete testId (activeSessions s) \<noteq> []"
    by blast+
  show ?thesis
    unfolding runTestInBackground_failed_state [OF noop]
    by (rule queue_inv_job_end [OF inv refl _ nq]) simp
qed

lemma queue_inv_step:
  assumes "queue_inv s"
  shows "queue_inv (step s e)"
proof (cases e)
  case (Start testId u url_ok now created)
  then show ?thesis using queue_inv_start [OF assms] by (simp add: step_def)
next
  case (Stop testId now)
  then show ?thesis using queue_inv_stop [OF assms] by (simp add: step_def)
next
  case (JobLoaded testId now)
  then show ?thesis using assms queue_inv_loaded [OF assms]
    by (simp add: step_def split: option.splits)
next
  case (JobFinishes testId logs retrieve now created)
  then show ?thesis using assms queue_inv_finish [OF assms]
    by (simp add: step_def split: option.splits)
next
  case (JobFails testId msg now created)
  then show ?thesis using assms queue_inv_failed [OF assms]
    by (simp add: step_def split: option.splits)
qed

lemma queue_inv_run:
  assumes "queue_inv s"
  shows "queue_inv (run s es)"
  using assms by (induction es arbitrary: s) (simp_all add: run_def queue_inv_step)

lemma queue_inv_reachable: "queue_inv (run init_state es)"
  by (rule queue_inv_run [OF queue_inv_init])

lemma queue_inv_drain_noop:
  assumes "queue_inv s"
  shows "processQueue created now s = s"
proof (cases "testQueue s")
  case Nil
  then show ?thesis by (simp add: processQueue_noop)
next
  case (Cons q rest)
  with assms have "qt_testId q \<in> fst ` set (activeSessions s)"
    by (simp add: queue_inv_def)
  then have "activeSessions s \<noteq> []" by auto
  then show ?thesis by (simp add: processQueue_noop)
qed

lemma queued_stays_queued_step:
  assumes inv: "queue_inv s" and q: "status_of s t = Some Queued"
  shows "status_of (step s e) t = Some Queued"
proof (cases e)
  case (Start testId u url_ok now created)
  from q obtain r where row: "tests (database s) t = Some r" and rq: "status r = Queued"
    by (auto simp: status_of_def getTest_def)
  show ?thesis
  proof (cases "testId = t")
    case True
    then show ?thesis using Start q row
      by (auto simp: step_def start_def start_admitted_def createTest_def split: sum.splits)
  next
    case False
    then show ?thesis using Start q row
      by (auto simp: step_def start_def start_admitted_def createTest_def Let_def status_of_def getTest_def
            updateTestStatus_def runTestInBackground_begin_def split: sum.splits option.splits)
  qed
next
  case (Stop testId now)
  then show ?thesis using q
    by (auto simp: step_def stop_def status_of_def getTest_def updateTestStatus_def
          split: option.splits)
next
  case (JobLoaded testId now)
  then show ?thesis using q
    by (auto simp: step_def runTestInBackground_loaded_def status_of_def getTest_def
          split: option.splits)
next
  case (JobFinishes testId logs retrieve now created)
  show ?thesis
  proof (cases "map_of (jobs s) testId")
    case None
    then show ?thesis using JobFinishes q by (simp add: step_def)
  next
    case (Some sid)
    from queue_inv_job_row [OF inv Some] obtain r where row: "tests (database s) testId = Some r"
      and noop: "testQueue s = [] \<or> AList.delete testId (activeSessions s) \<noteq> []"
      by blast
    from Some have "(testId, sid) \<in> set (jobs s)" by (rule map_of_SomeD)
    with inv q have ne: "t \<noteq> testId" by (auto simp: queue_inv_def)
    from runTestInBackground_finish_state [OF row noop]
    obtain rep d where g: "generateReport (database s) retrieve now testId logs sid = Inr (rep, d)"
      and f: "runTestInBackground_finish s testId sid logs retrieve now created =
               s\<lparr>database := updateTestStatus d testId Completed None now,
                 activeSessions := AList.delete testId (activeSessions s),
                 jobs := filter (\<lambda>j. fst j \<noteq> testId) (jobs s)\<rparr>"
      by blast
    from generateReport_store [OF g] have td: "tests d = tests (database s)"
      by blast
    show ?thesis using q ne
      by (simp add: JobFinishes step_def Some f status_of_def getTest_def updateTestStatus_other td)
  qed
next
  case (JobFails testId msg now created)
  show ?thesis
  proof (cases "map_of (jobs s) testId")
    case None
    then show ?thesis using JobFails q by (simp add: step_def)
  next
    case (Some sid)
    from queue_inv_job_row [OF inv Some]
    have noop: "testQueue s = [] \<or> AList.delete testId (activeSessions s) \<noteq> []"
      by blast
    from Some have "(testId, sid) \<in> set (jobs s)" by (rule map_of_SomeD)
    with inv q have ne: "t \<noteq> testId" by (auto simp: queue_inv_def)
    show ?thesis using q ne
      by (simp add: JobFails step_def Some runTestInBackground_failed_state [OF noop]
            status_of_def getTest_def updateTestStatus_other)
  qed
qed

lemma queued_stays_queued_run:
  assumes "queue_inv s" and "status_of s t = Some Queued"
  shows "status_of (run s es) t = Some Queued"
  using assms
proof (induction es arbitrary: s)
  case Nil
  then show ?case by (simp add: run_def)
next
  case (Cons e es)
  from Cons.prems have "queue_inv (step s e)" and "status_of (step s e) t = Some Queued"
    by (simp_all add: queue_inv_step queued_stays_queued_step)
  from Cons.IH [OF this] show ?case by (simp add: run_def)
qed

text \<open>
  After any sequence of events from the initial state, \<open>processQueue\<close> changes
  nothing, and a run whose status is \<open>'queued'\<close> keeps that status through every
  further sequence of events: a queued run is never started.
\<close>

theorem queued_run_never_starts:
  "processQueue created now (run init_state es) = run init_state es
   \<and> (status_of (run init_state es) t = Some Queued \<longrightarrow>
        status_of (run init_state (es @ es')) t = Some Queued)"
proof -
  have 1: "processQueue created now (run init_state es) = run init_state es"
    by (rule queue_inv_drain_noop [OF queue_inv_reachable])
  have 2: "run init_state (es @ es') = run (run init_state es) es'"
    by (simp add: run_def)
  have 3: "status_of (run init_state es) t = Some Queued \<longrightarrow>
        status_of (run (run init_state es) es') t = Some Queued"
    using queued_stays_queued_run [OF queue_inv_reachable] by blast
  from 1 3 show ?thesis
    unfolding 2 by blast
qed


theorem queued_run_never_starts_witness:
  "processQueue sessions_available 10 (run init_state three_starts) = run init_state three_starts
   \<and> status_of (run init_state (three_starts @
        [JobFinishes ''A'' sample_logs never_completed 9 sessions_available,
         Start ''D'' (Some ''https://example.edu'') True 11 (Inr sample_session),
         Stop ''B'' 12])) ''B'' = Some Queued"
proof -
  have b: "status_of (run init_state three_starts) ''B'' = Some Queued"
    by (simp add: three_starts_state status_of_def getTest_def)
  from queued_run_never_starts [of sessions_available 10 three_starts "''B''"
      "[JobFinishes ''A'' sample_logs never_completed 9 sessions_available,
         Start ''D'' (Some ''https://example.edu'') True 11 (Inr sample_session),
         Stop ''B'' 12]"] b
  show ?thesis by simp
qed

lemma one_running_step:
  assumes inv: "queue_inv s"
    and one: "\<forall>t1 t2. status_of s t1 = Some Running \<and> status_of s t2 = Some Running \<longrightarrow> t1 = t2"
  shows "\<forall>t1 t2. status_of (step s e) t1 = Some Running \<and> status_of (step s e) t2 = Some Running \<longrightarrow> t1 = t2"
proof (cases e)
  case (Start testId u url_ok now created)
  consider (bad) "\<not> truthy u \<or> \<not> url_ok"
    | (queue) "truthy u" "url_ok" "length (activeSessions s) \<ge> 1"
    | (direct) "truthy u" "url_ok" "activeSessions s = []"
    by (cases "activeSessions s") auto
  then show ?thesis
  proof cases
    case bad
    then show ?thesis using one Start by (auto simp: step_def start_def start_admitted_def)
  next
    case queue
    then show ?thesis using one Start
      by (auto simp: step_def start_def start_admitted_def createTest_def Let_def status_of_def getTest_def
            updateTestStatus_def split: option.splits if_splits)
  next
    case direct
    with inv have none: "\<forall>t. status_of s t \<noteq> Some Running"
      by (auto simp: queue_inv_def)
    then show ?thesis using Start direct
      by (auto simp: step_def start_def start_admitted_def createTest_def status_of_def getTest_def
            updateTestStatus_def runTestInBackground_begin_def split: option.splits sum.splits if_splits)
  qed
next
  case (Stop testId now)
  then show ?thesis using one
    by (auto simp: step_def stop_def status_of_def getTest_def updateTestStatus_def
          split: option.splits if_splits)
next
  case (JobLoaded testId now)
  then show ?thesis using one
    by (auto simp: step_def runTestInBackground_loaded_def status_of_def getTest_def
          split: option.splits)
next
  case (JobFinishes testId logs retrieve now created)
  show ?thesis
  proof (cases "map_of (jobs s) testId")
    case None
    then show ?thesis using JobFinishes one by (simp add: step_def)
  next
    case (Some sid)
    from queue_inv_job_row [OF inv Some] obtain r where row: "tests (database s) testId = Some r"
      and noop: "testQueue s = [] \<or> AList.delete testId (activeSessions s) \<noteq> []"
      by blast
    from runTestInBackground_finish_state [OF row noop]
    obtain rep d where g: "generateReport (database s) retrieve now testId logs sid = Inr (rep, d)"
      and f: "runTestInBackground_finish s testId sid logs retrieve now created =
               s\<lparr>database := updateTestStatus d testId Completed None now,
                 activeSessions := AList.delete testId (activeSessions s),
                 jobs := filter (\<lambda>j. fst j \<noteq> testId) (jobs s)\<rparr>"
      by blast
    from generateReport_store [OF g] have td: "tests d = tests (database s)"
      by blast
    show ?thesis using one
      by (auto simp: JobFinishes step_def Some f status_of_def getTest_def updateTestStatus_def td
            split: option.splits if_splits)
  qed
next
  case (JobFails testId msg now created)
  show ?thesis
  proof (cases "map_of (jobs s) testId")
    case None
    then show ?thesis using JobFails one by (simp add: step_def)
  next
    case (Some sid)
    from queue_inv_job_row [OF inv Some]
    have noop: "testQueue s = [] \<or> AList.delete testId (activeSessions s) \<noteq> []"
      by blast
    show ?thesis using one
      by (auto simp: JobFails step_def Some runTestInBackground_failed_state [OF noop]
            status_of_def getTest_def updateTestStatus_def split: option.splits if_splits)
  qed
qed

lemma one_running_run:
  assumes "queue_inv s"
    and "\<forall>t1 t2. status_of s t1 = Some Running \<and> status_of s t2 = Some Running \<longrightarrow> t1 = t2"
  shows "\<forall>t1 t2. status_of (run s es) t1 = Some Running \<and> status_of (run s es) t2 = Some Running \<longrightarrow> t1 = t2"
  using assms
proof (induction es arbitrary: s)
  case Nil
  then show ?case by (simp add: run_def)
next
  case (Cons e es)
  have "run s (e # es) = run (step s e) es" by (simp add: run_def)
  with Cons.IH [OF queue_inv_step [OF Cons.prems(1)] one_running_step [OF Cons.prems]]
  show ?case by simp
qed

text \<open>
  After any sequence of events from the initial state, at most one run has the
  status \<open>'running'\<close>: a start request is admitted only while \<open>activeSessions\<close> is
  empty, and every running run has its entry there. (Each handler runs to its end
  before the next event; two start requests that both pass the capacity check before
  either session is created are outside this model.)
\<close>

theorem at_most_one_running:
  "status_of (run init_state es) t1 = Some Running \<and> status_of (run init_state es) t2 = Some Running
     \<longrightarrow> t1 = t2"
proof -
  have "\<forall>t1 t2. status_of init_state t1 = Some Running \<and> status_of init_state t2 = Some Running \<longrightarrow> t1 = t2"
    by (simp add: init_state_def status_of_def getTest_def)
  from one_running_run [OF queue_inv_init this] show ?thesis by blast
qed

theorem at_most_one_running_witness:
  "status_of (run init_state three_starts) ''A'' = Some Running
   \<and> status_of (run init_state three_starts) ''B'' \<noteq> Some Running
   \<and> status_of (run init_state three_starts) ''C'' \<noteq> Some Running"
proof -
  have a: "status_of (run init_state three_starts) ''A'' = Some Running"
    by (simp add: three_starts_state status_of_def getTest_def)
  from at_most_one_running [of three_starts "''A''" "''B''"]
       at_most_one_running [of three_starts "''A''" "''C''"] a
  show ?thesis by auto
qed

text \<open>
  Two start requests that arrive together: both find \<open>activeSessions\<close> empty, both
  wait for their session, and when the provider has answered each of them creates
  its row and starts its job. Both runs are then \<open>'running'\<close>.
\<close>

theorem concurrent_starts_both_run:
  "\<not> 1 \<le> length (activeSessions init_state)
   \<and> status_of (snd (start_admitted
          (snd (start_admitted init_state ''A'' ''https://example.com'' 1 (Inr sample_session)))
          ''B'' ''https://example.org'' 2 (sessions_available 0))) ''A'' = Some Running
   \<and> status_of (snd (start_admitted
          (snd (start_admitted init_state ''A'' ''https://example.com'' 1 (Inr sample_session)))
          ''B'' ''https://example.org'' 2 (sessions_available 0))) ''B'' = Some Running"
  by (simp add: start_admitted_def init_state_def createSession_def createTest_def
        sample_session_def sessions_available_def runTestInBackground_begin_def
        updateTestStatus_def status_of_def getTest_def or_else_def truthy_def)

text \<open>
  The stop endpoint by itself: on a running run it answers 200, sets the status
  \<open>'stopped'\<close> and stores no report, and a report request in the state it leaves
  answers 400; on a run in any other status it answers 400 and leaves the state
  untouched. The report endpoint answers 400 for every run that is not
  \<open>'completed'\<close>.
\<close>

theorem stop_request_semantics:
  "(tests (database s) t = Some r \<and> status r = Running \<longrightarrow>
      fst (stop s t now) = (200, StoppedBody t)
      \<and> status_of (snd (stop s t now)) t = Some Stopped
      \<and> fst (get_report (snd (stop s t now)) t) = 400
      \<and> reports (database (snd (stop s t now))) = reports (database s))
   \<and> (tests (database s) t = Some r \<and> status r \<noteq> Running \<longrightarrow>
      fst (fst (stop s t now)) = 400 \<and> snd (stop s t now) = s)
   \<and> (tests (database s) t = Some r \<and> status r \<noteq> Completed \<longrightarrow> fst (get_report s t) = 400)"
  by (simp add: stop_def get_report_def getTest_def status_of_def updateTestStatus_def)

theorem stop_request_semantics_witness:
  "fst (stop sample_state ''t1'' 20) = (200, StoppedBody ''t1'')
   \<and> fst (get_report (snd (stop sample_state ''t1'' 20)) ''t1'') = 400
   \<and> fst (fst (stop (snd (stop sample_state ''t1'' 20)) ''t1'' 21)) = 400
   \<and> snd (stop (snd (stop sample_state ''t1'' 20)) ''t1'' 21) = snd (stop sample_state ''t1'' 20)"
proof -
  have row: "tests (database sample_state) ''t1'' =
      Some \<lparr>url = ''https://example.com'', status = Running, created_at = 10,
            started_at = Some 11, completed_at = None,
            browserbase_session_id = Some ''sess-1'', error = None\<rparr>"
    by (simp add: sample_state_def sample_db_def)
  have row2: "tests (database (snd (stop sample_state ''t1'' 20))) ''t1'' =
      Some \<lparr>url = ''https://example.com'', status = Stopped, created_at = 10,
            started_at = Some 11, completed_at = None,
            browserbase_session_id = Some ''sess-1'', error = None\<rparr>"
    by (simp add: stop_def getTest_def updateTestStatus_def row)
  from stop_request_semantics [where s = sample_state and t = "''t1''" and now = 20
         and r = "\<lparr>url = ''https://example.com'', status = Running, created_at = 10,
            started_at = Some 11, completed_at = None,
            browserbase_session_id = Some ''sess-1'', error = None\<rparr>"] row
       stop_request_semantics [where s = "snd (stop sample_state ''t1'' 20)" and t = "''t1''"
         and now = 21
         and r = "\<lparr>url = ''https://example.com'', status = Stopped, created_at = 10,
            started_at = Some 11, completed_at = None,
            browserbase_session_id = Some ''sess-1'', error = None\<rparr>"] row2
  show ?thesis by simp
qed

subsection \<open>Helper lemmas: the parser yields an object, the match of the braces\<close>

lemma rooted_in_object_FObj [simp]:
  "rooted_in_object (FObj ms k # st) \<longleftrightarrow> st = [] \<or> rooted_in_object st"
  by (cases st) simp_all

lemma rooted_in_object_FArr [simp]:
  "rooted_in_object (FArr vs # st) \<longleftrightarrow> st \<noteq> [] \<and> rooted_in_object st"
  by (cases st) simp_all

lemma push_value_rooted:
  "rooted_in_object (f # st) \<Longrightarrow> push_value v (f # st) = Some p \<Longrightarrow> yields_object p"
  by (cases f; cases st) (auto simp: push_value_def split: option.splits)

lemma push_value_yields:
  "(stack = [] \<longrightarrow> is_object v) \<Longrightarrow> (stack \<noteq> [] \<longrightarrow> rooted_in_object stack) \<Longrightarrow>
     push_value v stack = Some p \<Longrightarrow> yields_object p"
  by (cases stack) (auto simp: push_value_def push_value_rooted split: frame.splits option.splits list.splits)

lemma begin_value_yields:
  "rooted_in_object stack \<Longrightarrow> begin_value t stack = Some p \<Longrightarrow> yields_object p"
  by (cases stack; cases t) (auto simp: begin_value_def intro: push_value_yields)

lemma close_frame_yields:
  "rooted_in_object stack \<Longrightarrow> close_frame t stack = Some p \<Longrightarrow> yields_object p"
proof (cases stack)
  case Nil
  then show "rooted_in_object stack \<Longrightarrow> close_frame t stack = Some p \<Longrightarrow> yields_object p"
    by simp
next
  case (Cons f st)
  assume r: "rooted_in_object stack" and c: "close_frame t stack = Some p"
  show "yields_object p"
  proof (cases st)
    case Nil
    with Cons r c show ?thesis
      by (cases f; cases t) (auto simp: close_frame_def push_value_def split: option.splits)
  next
    case (Cons g st')
    with \<open>stack = f # st\<close> r have "rooted_in_object st" by simp
    with Cons \<open>stack = f # st\<close> c show ?thesis
      by (cases f; cases t)
         (auto simp: close_frame_def split: option.splits intro: push_value_yields)
  qed
qed

lemma parse_step_yields:
  "yields_object p \<Longrightarrow> parse_step p t = Some p' \<Longrightarrow> yields_object p'"
proof (cases p)
  case (PDone v)
  then show "yields_object p \<Longrightarrow> parse_step p t = Some p' \<Longrightarrow> yields_object p'"
    by (simp add: parse_step_def)
next
  case (PS e stack)
  assume y: "yields_object p" and s: "parse_step p t = Some p'"
  from y PS have r: "rooted_in_object stack" by simp
  show "yields_object p'"
  proof (cases e)
    case EValue
    with PS s r show ?thesis by (auto simp: parse_step_def intro: begin_value_yields)
  next
    case EValueOrClose
    with PS s r show ?thesis
      by (auto simp: parse_step_def split: if_splits intro: begin_value_yields close_frame_yields)
  next
    case EKeyOrClose
    with PS s r show ?thesis
      by (cases stack; cases t)
         (auto simp: parse_step_def split: frame.splits option.splits list.splits
               intro: close_frame_yields)
  next
    case EKey
    with PS s r show ?thesis
      by (cases stack; cases t)
         (auto simp: parse_step_def split: frame.splits option.splits list.splits)
  next
    case EColon
    with PS s r show ?thesis by (auto simp: parse_step_def split: if_splits)
  next
    case ECommaOrClose
    with PS s r show ?thesis
      by (cases stack; cases t)
         (auto simp: parse_step_def split: frame.splits option.splits list.splits
               intro: close_frame_yields)
  qed
qed

lemma parse_tokens_yields:
  "yields_object p \<Longrightarrow> parse_tokens p ts = Some v \<Longrightarrow> is_object v"
proof (induction ts arbitrary: p)
  case Nil
  then show ?case by (cases p) auto
next
  case (Cons t ts)
  then show ?case
    by (auto split: option.splits dest: parse_step_yields)
qed

lemma json_parse_object:
  assumes "json_parse (CHR ''{'' # rest) = Some v"
  shows "is_object v"
proof -
  from assms obtain ts where l: "tokens_from LStart rest = Some ts"
    and p: "parse_tokens (PS EValue []) (TLBrace # ts) = Some v"
    by (auto simp: json_parse_def is_ws_def emit_def split: option.splits)
  from p have "parse_tokens (PS EKeyOrClose [FObj [] None]) ts = Some v"
    by (simp add: parse_step_def begin_value_def)
  then show ?thesis
    by (rule parse_tokens_yields [rotated]) simp
qed

lemma match_braces_starts:
  "match_braces t = Some m \<Longrightarrow> \<exists>rest. m = CHR ''{'' # rest"
proof -
  assume m: "match_braces t = Some m"
  show ?thesis
  proof (cases "dropWhile (\<lambda>c. c \<noteq> CHR ''{'') t")
    case Nil
    with m show ?thesis by (simp add: match_braces_def)
  next
    case (Cons b rest)
    then have "b = CHR ''{''"
      using hd_dropWhile [of "\<lambda>c. c \<noteq> CHR ''{''" t] by auto
    with m Cons show ?thesis
      by (auto simp: match_braces_def split: if_splits)
  qed
qed

lemma match_braces_embedded:
  assumes "CHR ''{'' \<notin> set pre" and "CHR ''}'' \<notin> set post"
  shows "match_braces (pre @ (CHR ''{'' # mid @ [CHR ''}'']) @ post) = Some (CHR ''{'' # mid @ [CHR ''}''])"
proof -
  have 1: "dropWhile (\<lambda>c. c \<noteq> CHR ''{'') (pre @ (CHR ''{'' # mid @ [CHR ''}'']) @ post)
           = CHR ''{'' # mid @ [CHR ''}''] @ post"
    using assms(1) by (auto simp: dropWhile_append3)
  have 2: "dropWhile (\<lambda>c. c \<noteq> CHR ''}'') (rev (mid @ [CHR ''}''] @ post)) = CHR ''}'' # rev mid"
    using assms(2) by (auto simp: dropWhile_append3)
  show ?thesis
    unfolding match_braces_def 1 using 2 by simp
qed

lemma json_parse_sample: "json_parse sample_text = Some sample_action"
  by (simp add: json_parse_def sample_text_def sample_members_def sample_action_def js_def
        is_ws_def emit_def parse_step_def begin_value_def push_value_def close_frame_def)

lemma analyzeAndAct_total:
  "\<exists>d. analyzeAndAct (Inr responseText) = Inr d"
proof (cases "match_braces responseText")
  case None
  then show ?thesis by (simp add: analyzeAndAct_def no_json_action_def)
next
  case (Some m)
  show ?thesis
  proof (cases "json_parse m")
    case None
    with Some show ?thesis by (simp add: analyzeAndAct_def invalid_action_def)
  next
    case (Some v)
    from match_braces_starts [OF \<open>match_braces responseText = Some m\<close>]
    obtain rest where "m = CHR ''{'' # rest" by blast
    with Some have "is_object v" using json_parse_object by blast
    then have "v \<noteq> JNull" by auto
    with Some \<open>match_braces responseText = Some m\<close> show ?thesis
      by (simp add: analyzeAndAct_def)
  qed
qed

subsection \<open>The decision read from the language model's text\<close>

text \<open>
  Claim C4, as amended. For every text of the language model, \<open>analyzeAndAct\<close> returns a
  decision and does not throw. When the text is a JSON object between prose that has
  no opening brace before the object and no closing brace after it, the parsed object
  is returned. When the text has no braces to match, or \<open>JSON.parse\<close> rejects what
  was matched, the result is one of two default objects, both with action
  \<open>complete\<close> and a reasoning string that names the failure.
\<close>

theorem analyzeAndAct_on_text:
  "(\<exists>d. analyzeAndAct (Inr responseText) = Inr d)
   \<and> (CHR ''{'' \<notin> set pre \<and> CHR ''}'' \<notin> set post
        \<and> json_parse (CHR ''{'' # mid @ [CHR ''}'']) = Some obj \<longrightarrow>
        analyzeAndAct (Inr (pre @ (CHR ''{'' # mid @ [CHR ''}'']) @ post)) = Inr obj)
   \<and> (match_braces responseText = None
        \<or> (\<exists>m. match_braces responseText = Some m \<and> json_parse m = None) \<longrightarrow>
        (\<exists>d. analyzeAndAct (Inr responseText) = Inr d
             \<and> (d = no_json_action \<or> d = invalid_action)
             \<and> json_member d ''action'' = Some (JStr (js ''complete''))
             \<and> (\<exists>r. json_member d ''reasoning'' = Some (JStr r))))"
proof -
  have 1: "\<exists>d. analyzeAndAct (Inr responseText) = Inr d"
    by (rule analyzeAndAct_total)
  have 2: "CHR ''{'' \<notin> set pre \<and> CHR ''}'' \<notin> set post
        \<and> json_parse (CHR ''{'' # mid @ [CHR ''}'']) = Some obj \<longrightarrow>
        analyzeAndAct (Inr (pre @ (CHR ''{'' # mid @ [CHR ''}'']) @ post)) = Inr obj"
  proof
    assume h: "CHR ''{'' \<notin> set pre \<and> CHR ''}'' \<notin> set post
        \<and> json_parse (CHR ''{'' # mid @ [CHR ''}'']) = Some obj"
    then have m: "match_braces (pre @ (CHR ''{'' # mid @ [CHR ''}'']) @ post)
                  = Some (CHR ''{'' # mid @ [CHR ''}''])"
      using match_braces_embedded by blast
    from h have "is_object obj" using json_parse_object by blast
    then have "obj \<noteq> JNull" by auto
    with h m show "analyzeAndAct (Inr (pre @ (CHR ''{'' # mid @ [CHR ''}'']) @ post)) = Inr obj"
      by (simp add: analyzeAndAct_def)
  qed
  have a: "json_member no_json_action ''action'' = Some (JStr (js ''complete''))"
    "json_member invalid_action ''action'' = Some (JStr (js ''complete''))"
    "\<exists>r. json_member no_json_action ''reasoning'' = Some (JStr r)"
    "\<exists>r. json_member invalid_action ''reasoning'' = Some (JStr r)"
    by (simp_all add: json_member_def no_json_action_def invalid_action_def js_def)
  have 3: "match_braces responseText = None
        \<or> (\<exists>m. match_braces responseText = Some m \<and> json_parse m = None) \<longrightarrow>
        (\<exists>d. analyzeAndAct (Inr responseText) = Inr d
             \<and> (d = no_json_action \<or> d = invalid_action)
             \<and> json_member d ''action'' = Some (JStr (js ''complete''))
             \<and> (\<exists>r. json_member d ''reasoning'' = Some (JStr r)))"
  proof
    assume "match_braces responseText = None
        \<or> (\<exists>m. match_braces responseText = Some m \<and> json_parse m = None)"
    then have "analyzeAndAct (Inr responseText) = Inr no_json_action
               \<or> analyzeAndAct (Inr responseText) = Inr invalid_action"
      by (auto simp: analyzeAndAct_def no_json_action_def invalid_action_def)
    with a show "\<exists>d. analyzeAndAct (Inr responseText) = Inr d
             \<and> (d = no_json_action \<or> d = invalid_action)
             \<and> json_member d ''action'' = Some (JStr (js ''complete''))
             \<and> (\<exists>r. json_member d ''reasoning'' = Some (JStr r))"
      by auto
  qed
  from 1 2 3 show ?thesis by blast
qed

theorem analyzeAndAct_on_text_witness:
  "analyzeAndAct (Inr prose_text) = Inr sample_action
   \<and> json_member sample_action ''action'' = Some (JStr (js ''click''))
   \<and> analyzeAndAct (Inr ''I cannot decide what to do next.'') = Inr no_json_action"
proof -
  have p: "prose_text = ''I will click the button. '' @ (CHR ''{'' # sample_members @ [CHR ''}'']) @ '' Done.''"
    by (simp add: prose_text_def sample_text_def)
  have j: "json_parse (CHR ''{'' # sample_members @ [CHR ''}'']) = Some sample_action"
    using json_parse_sample by (simp add: sample_text_def)
  have n: "match_braces ''I cannot decide what to do next.'' = None"
    by (simp add: match_braces_def)
  have ne: "no_json_action \<noteq> invalid_action"
    by (simp add: no_json_action_def invalid_action_def js_def)
  have 1: "analyzeAndAct (Inr prose_text) = Inr sample_action"
    using analyzeAndAct_on_text [where pre = "''I will click the button. ''" and post = "'' Done.''"
        and mid = sample_members and obj = sample_action] j
    unfolding p by simp
  have 2: "json_member sample_action ''action'' = Some (JStr (js ''click''))"
    by (simp add: json_member_def sample_action_def js_def)
  have 3: "analyzeAndAct (Inr ''I cannot decide what to do next.'') = Inr no_json_action"
    using n by (simp add: analyzeAndAct_def no_json_action_def)
  from 1 2 3 show ?thesis by blast
qed

text \<open>
  Claim C4 as stated fails when the prose has braces of its own: the match runs from
  the first opening brace of the prose to the end of the object, \<open>JSON.parse\<close>
  rejects it, and the default \<open>complete\<close> decision is returned in place of the
  embedded object.
\<close>

theorem embedded_object_lost_counterexample:
  "json_parse sample_text = Some sample_action
   \<and> braces_text = ''Use {x}. '' @ sample_text
   \<and> analyzeAndAct (Inr braces_text) = Inr invalid_action
   \<and> analyzeAndAct (Inr braces_text) \<noteq> Inr sample_action"
proof -
  have m: "match_braces braces_text = Some (''{x}. '' @ sample_text)"
    by (simp add: match_braces_def braces_text_def sample_text_def sample_members_def)
  have p: "json_parse (''{x}. '' @ sample_text) = None"
    by (simp add: json_parse_def is_ws_def is_digit_def emit_def)
  have a: "analyzeAndAct (Inr braces_text) = Inr invalid_action"
    using m p by (simp add: analyzeAndAct_def invalid_action_def)
  have ne: "invalid_action \<noteq> sample_action"
    by (simp add: invalid_action_def sample_action_def js_def)
  from json_parse_sample a ne show ?thesis
    by (simp add: braces_text_def)
qed

subsection \<open>Failed actions inside the testing loop\<close>

lemma testWebsite_loop_rounds:
  assumes "\<forall>i. c \<le> i \<and> i < k \<longrightarrow>
             it_before (env i) = None \<and> it_decision (env i) = Inr (acts i)
             \<and> act_action (acts i) \<noteq> ''complete'' \<and> it_after (env i) = None"
    and "k \<le> maxActions" and "c \<le> k"
  shows "testWebsite_loop bi env c l =
           testWebsite_loop bi env k
             (l @ map (\<lambda>i. logged (env i) (acts i) (executeAction bi (it_page (env i)) (acts i))) [c..<k])"
  using assms
proof (induction bi env c l rule: testWebsite_loop.induct)
  case (1 bi env actionCount actionLog)
  let ?entry = "\<lambda>i. logged (env i) (acts i) (executeAction bi (it_page (env i)) (acts i))"
  show ?case
  proof (cases "actionCount < k")
    case False
    with "1.prems" have "actionCount = k" by simp
    then show ?thesis by simp
  next
    case True
    with "1.prems" have lt: "actionCount < maxActions"
      and b: "it_before (env actionCount) = None"
      and d: "it_decision (env actionCount) = Inr (acts actionCount)"
      and nc: "act_action (acts actionCount) \<noteq> ''complete''"
      and af: "it_after (env actionCount) = None"
      by auto
    from True have le: "actionCount + 1 \<le> k" by simp
    have r: "testWebsite_loop bi env (actionCount + 1) (actionLog @ [?entry actionCount])
          = testWebsite_loop bi env k
              ((actionLog @ [?entry actionCount]) @ map ?entry [actionCount + 1..<k])"
      using "1.IH" [OF lt b d nc af _ "1.prems"(2) le] "1.prems"(1) by simp
    have u: "[actionCount..<k] = actionCount # [actionCount + 1..<k]"
      using True by (simp add: upt_conv_Cons)
    have unfold: "testWebsite_loop bi env actionCount actionLog
          = testWebsite_loop bi env (actionCount + 1) (actionLog @ [?entry actionCount])"
      by (subst testWebsite_loop.simps) (simp add: lt b d nc af)
    show ?thesis
      unfolding unfold r u by simp
  qed
qed

lemma testWebsite_loop_extends:
  "\<exists>rest. log_of (testWebsite_loop bi env c l) = l @ rest"
proof (induction bi env c l rule: testWebsite_loop.induct)
  case (1 bi env actionCount actionLog)
  show ?case
    using "1.IH"
    by (subst testWebsite_loop.simps) (auto split: option.splits sum.splits)
qed

lemma testWebsite_log_of:
  "\<exists>rest. testWebsite bi None env catch_now catch_url = log_of (testWebsite_loop bi env 0 []) @ rest"
proof (cases "testWebsite_loop bi env 0 []")
  case (Inl p)
  then show ?thesis by (cases p) (simp add: testWebsite_def)
next
  case (Inr l)
  then show ?thesis by (simp add: testWebsite_def)
qed

lemma testWebsite_prefix:
  assumes "\<forall>i<k. it_before (env i) = None \<and> it_decision (env i) = Inr (acts i)
                  \<and> act_action (acts i) \<noteq> ''complete'' \<and> it_after (env i) = None"
    and "k \<le> maxActions"
  shows "testWebsite_loop bi env 0 [] =
           testWebsite_loop bi env k
             (map (\<lambda>i. logged (env i) (acts i) (executeAction bi (it_page (env i)) (acts i))) [0..<k])"
    and "\<exists>rest. testWebsite bi None env catch_now catch_url =
           map (\<lambda>i. logged (env i) (acts i) (executeAction bi (it_page (env i)) (acts i))) [0..<k] @ rest"
proof -
  let ?entry = "\<lambda>i. logged (env i) (acts i) (executeAction bi (it_page (env i)) (acts i))"
  from assms have "\<forall>i. 0 \<le> i \<and> i < k \<longrightarrow>
             it_before (env i) = None \<and> it_decision (env i) = Inr (acts i)
             \<and> act_action (acts i) \<noteq> ''complete'' \<and> it_after (env i) = None"
    by simp
  from testWebsite_loop_rounds [OF this assms(2), of bi "[]"]
  show r: "testWebsite_loop bi env 0 [] = testWebsite_loop bi env k (map ?entry [0..<k])"
    by simp
  from testWebsite_loop_extends [of bi env k "map ?entry [0..<k]"]
  obtain rest where "log_of (testWebsite_loop bi env 0 []) = map ?entry [0..<k] @ rest"
    unfolding r by blast
  with testWebsite_log_of [of bi env catch_now catch_url]
  show "\<exists>rest. testWebsite bi None env catch_now catch_url = map ?entry [0..<k] @ rest"
    by auto
qed

lemma testWebsite_loop_cap:
  "testWebsite_loop bi env maxActions l = Inr l"
  by (subst testWebsite_loop.simps) simp

lemma testWebsite_loop_complete:
  assumes "k < maxActions" and "it_before (env k) = None" and "it_decision (env k) = Inr c"
    and "act_action c = ''complete''"
  shows "testWebsite_loop bi env k l =
           Inr (l @ [logged (env k) c
                       \<lparr>res_success = True, res_message = ''Testing completed by AI'', res_error = None\<rparr>])"
  using assms by (subst testWebsite_loop.simps) simp

lemma executeAction_click:
  "act_action a = ''click'' \<Longrightarrow>
     executeAction bi pg a =
       (if \<not> truthy_val (act_target a) then failed_action a ''Click action requires a target selector''
        else case page_click pg (str_of (act_target a)) of
               Some e \<Rightarrow> failed_action a e
             | None \<Rightarrow> \<lparr>res_success = True, res_message = ''Clicked on '' @ tmpl (act_target a),
                        res_error = None\<rparr>)"
  by (simp add: executeAction_def done_action_def split: option.splits)

lemma executeAction_type:
  "act_action a = ''type'' \<Longrightarrow>
     executeAction bi pg a =
       (if \<not> truthy_val (act_target a) then failed_action a ''Type action requires a target selector''
        else if \<not> truthy_val (act_value a) then failed_action a ''Type action requires a value''
        else case page_fill pg (str_of (act_target a)) (str_of (act_value a)) of
               Some e \<Rightarrow> failed_action a e
             | None \<Rightarrow> \<lparr>res_success = True,
                        res_message = ''Typed '' @ [CHR 0x22] @ tmpl (act_value a) @ [CHR 0x22] @
                                      '' into '' @ tmpl (act_target a),
                        res_error = None\<rparr>)"
  by (simp add: executeAction_def done_action_def split: option.splits)

lemma executeAction_scroll:
  "act_action a = ''scroll'' \<Longrightarrow>
     executeAction bi pg a =
       (case page_scrollBy pg (if act_target a = Str ''up'' then - 500 else 500) of
          Some e \<Rightarrow> failed_action a e
        | None \<Rightarrow> \<lparr>res_success = True, res_message = ''Scrolled '' @ tmpl (act_target a),
                   res_error = None\<rparr>)"
  by (simp add: executeAction_def done_action_def split: option.splits)

lemma executeAction_navigate:
  "act_action a = ''navigate'' \<Longrightarrow>
     executeAction bi pg a =
       (if \<not> truthy_val (act_target a) then failed_action a ''Navigate action requires a target URL''
        else case page_goto pg (str_of (act_target a)) of
               Some e \<Rightarrow> failed_action a e
             | None \<Rightarrow> \<lparr>res_success = True, res_message = ''Navigated to '' @ tmpl (act_target a),
                        res_error = None\<rparr>)"
  by (simp add: executeAction_def done_action_def split: option.splits)

lemma executeAction_wait:
  "act_action a = ''wait'' \<Longrightarrow>
     executeAction bi pg a =
       (case page_waitForTimeout pg (number_or (parseInt bi (act_value a)) (Num 1000)) of
          Some e \<Rightarrow> failed_action a e
        | None \<Rightarrow> \<lparr>res_success = True,
                   res_message = ''Waited for '' @
                     numberText bi (number_or (parseInt bi (act_value a)) (Num 1000)) @ ''ms'',
                   res_error = None\<rparr>)"
  by (simp add: executeAction_def done_action_def Let_def split: option.splits)

lemma executeAction_other:
  "act_action a = ''complete'' \<Longrightarrow>
     executeAction bi pg a = \<lparr>res_success = True, res_message = ''Testing complete'', res_error = None\<rparr>"
  "act_action a \<notin> {''click'', ''type'', ''scroll'', ''navigate'', ''wait'', ''complete''} \<Longrightarrow>
     executeAction bi pg a =
       \<lparr>res_success = False, res_message = ''Unknown action: '' @ act_action a, res_error = None\<rparr>"
  by (simp_all add: executeAction_def)

text \<open>
  Claim C5. Take the first \<open>k\<close> rounds of the loop (\<open>k\<close> at most the cap of 15) in
  which the page calls around the decision succeed and the decision is not
  \<open>complete\<close>, whatever becomes of the actions themselves. Then the log returned by
  \<open>testWebsite\<close> starts with one entry per round, each holding the decision and the
  result of \<open>executeAction\<close> for it, and the loop has gone on to every one of the \<open>k\<close>
  decisions; \<open>testWebsite\<close> returns its log and never throws. When these rounds
  reach the cap, or when the next decision is \<open>complete\<close>, the log is these entries
  (and the entry of the \<open>complete\<close> decision) and nothing else: the entry that the
  \<open>catch\<close> block of \<open>testWebsite\<close> writes for a failed run is not in it.

  The result of \<open>executeAction\<close> is given for every decision. A page call that throws
  (an element that is not found, a timeout, a navigation that fails), be it
  \<open>click\<close>, \<open>fill\<close>, \<open>scrollBy\<close>, \<open>goto\<close> or \<open>waitForTimeout\<close>, gives success false, the
  message \<open>Failed to execute\<close> followed by the kind, and the error's text; so does a
  missing target of a click, a type or a navigate action and a missing value of a
  type action. An unknown kind gives success false and no error text. Success is
  true in no other case than a page call that returned, or the kind \<open>complete\<close>.
\<close>

theorem failed_actions_do_not_stop_the_loop:
  assumes "\<forall>i<k. it_before (env i) = None \<and> it_decision (env i) = Inr (acts i)
                  \<and> act_action (acts i) \<noteq> ''complete'' \<and> it_after (env i) = None"
    and "k \<le> maxActions"
  shows "take k (testWebsite bi None env catch_now catch_url) =
           map (\<lambda>i. logged (env i) (acts i) (executeAction bi (it_page (env i)) (acts i))) [0..<k]
       \<and> k \<le> length (testWebsite bi None env catch_now catch_url)
       \<and> (\<forall>i<k. log_action (testWebsite bi None env catch_now catch_url ! i) = acts i
                \<and> log_result (testWebsite bi None env catch_now catch_url ! i)
                    = executeAction bi (it_page (env i)) (acts i))
       \<and> (k = maxActions \<longrightarrow>
            testWebsite bi None env catch_now catch_url =
              map (\<lambda>i. logged (env i) (acts i) (executeAction bi (it_page (env i)) (acts i))) [0..<k])
       \<and> (k < maxActions \<and> it_before (env k) = None \<and> it_decision (env k) = Inr c
            \<and> act_action c = ''complete'' \<longrightarrow>
            testWebsite bi None env catch_now catch_url =
              map (\<lambda>i. logged (env i) (acts i) (executeAction bi (it_page (env i)) (acts i))) [0..<k]
              @ [logged (env k) c
                   \<lparr>res_success = True, res_message = ''Testing completed by AI'', res_error = None\<rparr>])
       \<and> (act_action a = ''click'' \<longrightarrow>
            executeAction bi pg a =
              (if \<not> truthy_val (act_target a)
               then failed_action a ''Click action requires a target selector''
               else case page_click pg (str_of (act_target a)) of
                      Some e \<Rightarrow> failed_action a e
                    | None \<Rightarrow> \<lparr>res_success = True, res_message = ''Clicked on '' @ tmpl (act_target a),
                               res_error = None\<rparr>))
       \<and> (act_action a = ''type'' \<longrightarrow>
            executeAction bi pg a =
              (if \<not> truthy_val (act_target a)
               then failed_action a ''Type action requires a target selector''
               else if \<not> truthy_val (act_value a)
               then failed_action a ''Type action requires a value''
               else case page_fill pg (str_of (act_target a)) (str_of (act_value a)) of
                      Some e \<Rightarrow> failed_action a e
                    | None \<Rightarrow> \<lparr>res_success = True,
                               res_message = ''Typed '' @ [CHR 0x22] @ tmpl (act_value a) @ [CHR 0x22] @
                                             '' into '' @ tmpl (act_target a),
                               res_error = None\<rparr>))
       \<and> (act_action a = ''scroll'' \<longrightarrow>
            executeAction bi pg a =
              (case page_scrollBy pg (if act_target a = Str ''up'' then - 500 else 500) of
                 Some e \<Rightarrow> failed_action a e
               | None \<Rightarrow> \<lparr>res_success = True, res_message = ''Scrolled '' @ tmpl (act_target a),
                          res_error = None\<rparr>))
       \<and> (act_action a = ''navigate'' \<longrightarrow>
            executeAction bi pg a =
              (if \<not> truthy_val (act_target a)
               then failed_action a ''Navigate action requires a target URL''
               else case page_goto pg (str_of (act_target a)) of
                      Some e \<Rightarrow> failed_action a e
                    | None \<Rightarrow> \<lparr>res_success = True, res_message = ''Navigated to '' @ tmpl (act_target a),
                               res_error = None\<rparr>))
       \<and> (act_action a = ''wait'' \<longrightarrow>
            executeAction bi pg a =
              (case page_waitForTimeout pg (number_or (parseInt bi (act_value a)) (Num 1000)) of
                 Some e \<Rightarrow> failed_action a e
               | None \<Rightarrow> \<lparr>res_success = True,
                          res_message = ''Waited for '' @
                            numberText bi (number_or (parseInt bi (act_value a)) (Num 1000)) @ ''ms'',
                          res_error = None\<rparr>))
       \<and> (act_action a = ''complete'' \<longrightarrow>
            executeAction bi pg a =
              \<lparr>res_success = True, res_message = ''Testing complete'', res_error = None\<rparr>)
       \<and> (act_action a \<notin> {''click'', ''type'', ''scroll'', ''navigate'', ''wait'', ''complete''} \<longrightarrow>
            executeAction bi pg a =
              \<lparr>res_success = False, res_message = ''Unknown action: '' @ act_action a, res_error = None\<rparr>)
       \<and> failed_action a msg =
            \<lparr>res_success = False, res_message = ''Failed to execute '' @ act_action a,
             res_error = Some msg\<rparr>"
proof -
  let ?entry = "\<lambda>i. logged (env i) (acts i) (executeAction bi (it_page (env i)) (acts i))"
  let ?log = "testWebsite bi None env catch_now catch_url"
  note loop = testWebsite_prefix(1) [OF assms, of bi]
  from testWebsite_prefix(2) [OF assms]
  obtain rest where l: "?log = map ?entry [0..<k] @ rest"
    by blast
  have 1: "take k ?log = map ?entry [0..<k]"
    unfolding l by simp
  have 2: "k \<le> length ?log"
    unfolding l by simp
  have 3: "\<forall>i<k. log_action (?log ! i) = acts i
                \<and> log_result (?log ! i) = executeAction bi (it_page (env i)) (acts i)"
    unfolding l by (simp add: nth_append logged_def)
  have cap: "k = maxActions \<longrightarrow> ?log = map ?entry [0..<k]"
    by (simp add: testWebsite_def loop testWebsite_loop_cap)
  have fin: "k < maxActions \<and> it_before (env k) = None \<and> it_decision (env k) = Inr c
            \<and> act_action c = ''complete'' \<longrightarrow>
            ?log = map ?entry [0..<k]
              @ [logged (env k) c
                   \<lparr>res_success = True, res_message = ''Testing completed by AI'', res_error = None\<rparr>]"
    by (simp add: testWebsite_def loop testWebsite_loop_complete)
  note 4 = executeAction_click [of a bi pg] executeAction_type [of a bi pg]
    executeAction_scroll [of a bi pg] executeAction_navigate [of a bi pg]
    executeAction_wait [of a bi pg] executeAction_other [of a bi pg]
  have 5: "failed_action a msg =
            \<lparr>res_success = False, res_message = ''Failed to execute '' @ act_action a,
             res_error = Some msg\<rparr>"
    by (simp add: failed_action_def)
  from 1 2 3 cap fin 4 5 show ?thesis by blast
qed

theorem failed_actions_do_not_stop_the_loop_witness:
  "length (testWebsite sample_builtins None failing_env 99 ''https://example.com/'') = 15
   \<and> map (\<lambda>l. act_action (log_action l))
         (testWebsite sample_builtins None stopping_env 99 ''https://example.com/'') =
       [''click'', ''type'', ''complete'']
   \<and> map (\<lambda>l. res_success (log_result l))
         (testWebsite sample_builtins None stopping_env 99 ''https://example.com/'') =
       [False, False, True]
   \<and> log_result (testWebsite sample_builtins None failing_env 99 ''https://example.com/'' ! 0) =
       \<lparr>res_success = False, res_message = ''Failed to execute click'',
        res_error = Some ''Timeout 5000ms exceeded''\<rparr>
   \<and> log_result (testWebsite sample_builtins None failing_env 99 ''https://example.com/'' ! 1) =
       \<lparr>res_success = False, res_message = ''Failed to execute type'',
        res_error = Some ''Type action requires a value''\<rparr>
   \<and> log_result (testWebsite sample_builtins None failing_env 99 ''https://example.com/'' ! 2) =
       \<lparr>res_success = False, res_message = ''Failed to execute navigate'',
        res_error = Some ''net::ERR_CONNECTION_REFUSED''\<rparr>
   \<and> log_result (testWebsite sample_builtins None failing_env 99 ''https://example.com/'' ! 3) =
       \<lparr>res_success = False, res_message = ''Unknown action: hover'', res_error = None\<rparr>
   \<and> log_result (testWebsite sample_builtins None failing_env 99 ''https://example.com/'' ! 4) =
       \<lparr>res_success = True, res_message = ''Waited for 250ms'', res_error = None\<rparr>
   \<and> log_action (testWebsite sample_builtins None failing_env 99 ''https://example.com/'' ! 14) = wait_250
   \<and> executeAction sample_builtins broken_page scroll_null =
       \<lparr>res_success = False, res_message = ''Failed to execute scroll'', res_error = Some ''Target closed''\<rparr>
   \<and> executeAction sample_builtins stuck_page scroll_null =
       \<lparr>res_success = True, res_message = ''Scrolled null'', res_error = None\<rparr>
   \<and> executeAction sample_builtins broken_page wait_250 =
       \<lparr>res_success = False, res_message = ''Failed to execute wait'', res_error = Some ''Target closed''\<rparr>"
proof -
  let ?acts = "\<lambda>i. sample_actions ! (i mod 5)"
  let ?log = "testWebsite sample_builtins None failing_env 99 ''https://example.com/''"
  have nc: "\<forall>a \<in> set sample_actions. act_action a \<noteq> ''complete''"
    by (simp add: sample_actions_def click_missing_def type_no_value_def navigate_down_def
          hover_menu_def wait_250_def)
  have nc_all: "\<forall>i. act_action (?acts i) \<noteq> ''complete''"
  proof
    fix i :: nat
    have "i mod 5 < length sample_actions" by (simp add: sample_actions_def)
    then have "?acts i \<in> set sample_actions" by (rule nth_mem)
    with nc show "act_action (?acts i) \<noteq> ''complete''" by blast
  qed
  from nc_all have h: "\<forall>i<15. it_before (failing_env i) = None \<and> it_decision (failing_env i) = Inr (?acts i)
                  \<and> act_action (?acts i) \<noteq> ''complete'' \<and> it_after (failing_env i) = None"
    by (simp add: failing_env_def)
  have m: "(15::nat) \<le> maxActions"
    by (simp add: maxActions_def)
  have w: "show_nat 250 = ''250''"
    by (simp add: show_nat.simps digit_char_def)
  note t = failed_actions_do_not_stop_the_loop [OF h m, where bi = sample_builtins
      and catch_now = 99 and catch_url = "''https://example.com/''" and c = complete_decision]
  note on_stuck = t [where a = scroll_null and pg = stuck_page and msg = "''Target closed''"]
  note on_broken = t [where a = scroll_null and pg = broken_page and msg = "''Target closed''"]
  note wait_broken = t [where a = wait_250 and pg = broken_page and msg = "''Target closed''"]
  have "?log = map (\<lambda>i. logged (failing_env i) (?acts i)
                     (executeAction sample_builtins (it_page (failing_env i)) (?acts i))) [0..<15]"
    using on_stuck by (simp add: maxActions_def)
  then have len: "length ?log = 15"
    by simp
  have h2: "\<forall>i<2. it_before (stopping_env i) = None \<and> it_decision (stopping_env i) = Inr (?acts i)
                  \<and> act_action (?acts i) \<noteq> ''complete'' \<and> it_after (stopping_env i) = None"
  proof (intro allI impI)
    fix i :: nat
    assume "i < 2"
    then have "i < 15" by simp
    with h have "it_before (failing_env i) = None \<and> it_decision (failing_env i) = Inr (?acts i)
                  \<and> act_action (?acts i) \<noteq> ''complete'' \<and> it_after (failing_env i) = None"
      by blast
    with \<open>i < 2\<close> show "it_before (stopping_env i) = None \<and> it_decision (stopping_env i) = Inr (?acts i)
                  \<and> act_action (?acts i) \<noteq> ''complete'' \<and> it_after (stopping_env i) = None"
      by (simp only: stopping_env_def if_True) simp
  qed
  have m2: "(2::nat) \<le> maxActions"
    by (simp add: maxActions_def)
  have u2: "[0..<2] = [0, Suc 0]"
    by (simp add: upt_rec)
  have e0': "executeAction sample_builtins stuck_page click_missing =
       \<lparr>res_success = False, res_message = ''Failed to execute click'',
        res_error = Some ''Timeout 5000ms exceeded''\<rparr>"
    by (simp add: executeAction_def done_action_def failed_action_def click_missing_def
          stuck_page_def truthy_val_def str_of_def)
  have e1': "executeAction sample_builtins stuck_page type_no_value =
       \<lparr>res_success = False, res_message = ''Failed to execute type'',
        res_error = Some ''Type action requires a value''\<rparr>"
    by (simp add: executeAction_def done_action_def failed_action_def type_no_value_def
          stuck_page_def truthy_val_def str_of_def)
  have stop_log: "testWebsite sample_builtins None stopping_env 99 ''https://example.com/'' =
      map (\<lambda>i. logged (stopping_env i) (?acts i)
                  (executeAction sample_builtins (it_page (stopping_env i)) (?acts i))) [0..<2]
      @ [logged (stopping_env 2) complete_decision
           \<lparr>res_success = True, res_message = ''Testing completed by AI'', res_error = None\<rparr>]"
    using failed_actions_do_not_stop_the_loop [OF h2 m2, where bi = sample_builtins
      and catch_now = 99 and catch_url = "''https://example.com/''" and c = complete_decision
      and a = scroll_null and pg = stuck_page and msg = "''Target closed''"]
    by (simp add: maxActions_def stopping_env_def complete_decision_def)
  have kinds: "map (\<lambda>l. act_action (log_action l))
         (testWebsite sample_builtins None stopping_env 99 ''https://example.com/'') =
       [''click'', ''type'', ''complete'']"
    unfolding stop_log u2
    by (simp add: logged_def sample_actions_def click_missing_def type_no_value_def complete_decision_def)
  have flags: "map (\<lambda>l. res_success (log_result l))
         (testWebsite sample_builtins None stopping_env 99 ''https://example.com/'') =
       [False, False, True]"
    unfolding stop_log u2
    by (simp add: logged_def sample_actions_def stopping_env_def failing_env_def e0' e1')
  have res: "\<forall>i<15. log_action (?log ! i) = ?acts i
                \<and> log_result (?log ! i) = executeAction sample_builtins (it_page (failing_env i)) (?acts i)"
    using on_stuck by blast
  have r0: "log_result (?log ! 0) = executeAction sample_builtins stuck_page click_missing"
    and r1: "log_result (?log ! 1) = executeAction sample_builtins stuck_page type_no_value"
    and r2: "log_result (?log ! 2) = executeAction sample_builtins stuck_page navigate_down"
    and r3: "log_result (?log ! 3) = executeAction sample_builtins stuck_page hover_menu"
    and r4: "log_result (?log ! 4) = executeAction sample_builtins stuck_page wait_250"
    and a14: "log_action (?log ! 14) = wait_250"
    using res by (simp_all add: failing_env_def sample_actions_def)
  have e0: "executeAction sample_builtins stuck_page click_missing =
       \<lparr>res_success = False, res_message = ''Failed to execute click'',
        res_error = Some ''Timeout 5000ms exceeded''\<rparr>"
    using t [where a = click_missing and pg = stuck_page and msg = "''Timeout 5000ms exceeded''"]
    by (simp add: click_missing_def stuck_page_def truthy_val_def str_of_def)
  have e1: "executeAction sample_builtins stuck_page type_no_value =
       \<lparr>res_success = False, res_message = ''Failed to execute type'',
        res_error = Some ''Type action requires a value''\<rparr>"
    using t [where a = type_no_value and pg = stuck_page and msg = "''Type action requires a value''"]
    by (simp add: type_no_value_def stuck_page_def truthy_val_def str_of_def)
  have e2: "executeAction sample_builtins stuck_page navigate_down =
       \<lparr>res_success = False, res_message = ''Failed to execute navigate'',
        res_error = Some ''net::ERR_CONNECTION_REFUSED''\<rparr>"
    using t [where a = navigate_down and pg = stuck_page and msg = "''net::ERR_CONNECTION_REFUSED''"]
    by (simp add: navigate_down_def stuck_page_def truthy_val_def str_of_def)
  have e3: "executeAction sample_builtins stuck_page hover_menu =
       \<lparr>res_success = False, res_message = ''Unknown action: hover'', res_error = None\<rparr>"
    using t [where a = hover_menu and pg = stuck_page and msg = "''Target closed''"]
    by (simp add: hover_menu_def)
  have e4: "executeAction sample_builtins stuck_page wait_250 =
       \<lparr>res_success = True, res_message = ''Waited for 250ms'', res_error = None\<rparr>"
    using t [where a = wait_250 and pg = stuck_page and msg = "''Target closed''"]
    by (simp add: wait_250_def stuck_page_def sample_builtins_def number_or_def w)
  have s1: "executeAction sample_builtins broken_page scroll_null =
       \<lparr>res_success = False, res_message = ''Failed to execute scroll'', res_error = Some ''Target closed''\<rparr>"
    using on_broken by (simp add: scroll_null_def broken_page_def)
  have s2: "executeAction sample_builtins stuck_page scroll_null =
       \<lparr>res_success = True, res_message = ''Scrolled null'', res_error = None\<rparr>"
    using on_stuck by (simp add: scroll_null_def stuck_page_def tmpl_def)
  have s3: "executeAction sample_builtins broken_page wait_250 =
       \<lparr>res_success = False, res_message = ''Failed to execute wait'', res_error = Some ''Target closed''\<rparr>"
    using wait_broken by (simp add: wait_250_def broken_page_def)
  from len kinds flags r0 r1 r2 r3 r4 a14 e0 e1 e2 e3 e4 s1 s2 s3 show ?thesis
    by simp
qed

end
